theory Spec2Isabelle
  imports Main
begin

section \<open>Strings\<close>

text \<open>
  A JavaScript string is a sequence of UTF-16 code units; \<open>length\<close>, \<open>slice\<close>,
  \<open>includes\<close> and the regular expressions of the source all work on code units. The
  model uses \<^typ>\<open>string\<close>, one \<^typ>\<open>char\<close> for each code unit, and so covers the
  texts whose code units are below 256 (ISO 8859-1). \<open>code\<close> is \<open>charCodeAt\<close>.
\<close>

definition code :: "char \<Rightarrow> nat" where
  "code c = of_char c"

definition is_digit :: "char \<Rightarrow> bool" where
  \<comment> \<open>the class \<open>\d\<close>\<close>
  "is_digit c = (48 \<le> code c \<and> code c \<le> 57)"

definition is_space :: "char \<Rightarrow> bool" where
  \<comment> \<open>the class \<open>\s\<close>, which is also what \<open>trim\<close> removes: TAB, LF, VT, FF, CR, space and
      the no-break space U+00A0 are the members below 256\<close>
  "is_space c = ((9 \<le> code c \<and> code c \<le> 13) \<or> code c = 32 \<or> code c = 160)"

definition is_upper :: "char \<Rightarrow> bool" where
  "is_upper c = (65 \<le> code c \<and> code c \<le> 90)"

definition is_lower :: "char \<Rightarrow> bool" where
  "is_lower c = (97 \<le> code c \<and> code c \<le> 122)"

definition ascii_upper :: "char \<Rightarrow> char" where
  "ascii_upper c = (if is_lower c then char_of (code c - 32) else c)"

definition ascii_lower :: "char \<Rightarrow> char" where
  "ascii_lower c = (if is_upper c then char_of (code c + 32) else c)"

definition lower_char :: "char \<Rightarrow> char" where
  \<comment> \<open>\<open>toLowerCase\<close> on one code unit below 256: A-Z, and U+00C0-U+00DE except the
      multiplication sign U+00D7, move up by 32\<close>
  "lower_char c =
     (if is_upper c \<or> (192 \<le> code c \<and> code c \<le> 222 \<and> code c \<noteq> 215)
      then char_of (code c + 32) else c)"

definition toLowerCase :: "string \<Rightarrow> string" where
  "toLowerCase s = map lower_char s"

definition trim :: "string \<Rightarrow> string" where
  "trim s = rev (dropWhile is_space (rev (dropWhile is_space s)))"

primrec startsWith :: "string \<Rightarrow> string \<Rightarrow> bool" where
  "startsWith s [] = True"
| "startsWith s (p # ps) = (case s of [] \<Rightarrow> False | c # cs \<Rightarrow> c = p \<and> startsWith cs ps)"

primrec str_includes :: "string \<Rightarrow> string \<Rightarrow> bool" where
  \<comment> \<open>\<open>s.includes(t)\<close>: \<open>t\<close> occurs in \<open>s\<close> as a contiguous run\<close>
  "str_includes [] t = (t = [])"
| "str_includes (c # cs) t = (startsWith (c # cs) t \<or> str_includes cs t)"

definition endsWith :: "string \<Rightarrow> string \<Rightarrow> bool" where
  "endsWith s t = startsWith (rev s) (rev t)"

definition slice0 :: "'a list \<Rightarrow> int \<Rightarrow> 'a list" where
  \<comment> \<open>\<open>xs.slice(0, n)\<close> for strings and arrays: a negative \<open>n\<close> counts from the end\<close>
  "slice0 xs n = (if n < 0 then take (nat (int (length xs) + n)) xs else take (nat n) xs)"

fun join :: "string \<Rightarrow> string list \<Rightarrow> string" where
  "join sep [] = []"
| "join sep [x] = x"
| "join sep (x # y # ys) = x @ sep @ join sep (y # ys)"


section \<open>Regular expressions\<close>

text \<open>
  The patterns of the source are kept as data. \<open>matches\<close> gives, for a pattern and a
  position in the text, every way the pattern can match there, in the order in which a
  backtracking matcher tries them (a greedy quantifier tries the longer match first, an
  alternative its left branch first): the head of the list is the match JavaScript
  reports. A state is the text still to be read together with the value of capture
  group 1, the only group the source reads.
\<close>

datatype cls = CChar char | CRange char char | CDigit | CSpace

datatype rx =
    Eps
  | Atom "cls list"
  | NotAtom "cls list"
  | Seq rx rx
  | Alt rx rx
  | Opt rx
  | Star rx
  | Plus rx
  | LazyStar rx
  | Times nat rx
  | Group rx

type_synonym mstate = "string \<times> string option"

fun in_cls :: "bool \<Rightarrow> char \<Rightarrow> cls \<Rightarrow> bool" where
  \<comment> \<open>with the flag \<open>i\<close> two characters match when their upper-case forms agree; a
      character outside ASCII never folds onto an ASCII one, and the patterns of the
      source contain ASCII characters only\<close>
  "in_cls ic c (CChar p) = (if ic then ascii_upper c = ascii_upper p else c = p)"
| "in_cls ic c (CRange a b) =
     (if ic then (code a \<le> code (ascii_upper c) \<and> code (ascii_upper c) \<le> code b)
               \<or> (code a \<le> code (ascii_lower c) \<and> code (ascii_lower c) \<le> code b)
      else code a \<le> code c \<and> code c \<le> code b)"
| "in_cls ic c CDigit = is_digit c"
| "in_cls ic c CSpace = is_space c"

primrec exactly :: "nat \<Rightarrow> (mstate \<Rightarrow> mstate list) \<Rightarrow> mstate \<Rightarrow> mstate list" where
  "exactly 0 f st = [st]"
| "exactly (Suc n) f st = concat (map (exactly n f) (f st))"

primrec greedy :: "nat \<Rightarrow> (mstate \<Rightarrow> mstate list) \<Rightarrow> mstate \<Rightarrow> mstate list" where
  \<comment> \<open>\<open>r*\<close>: one more repetition first, then none; a repetition that reads nothing is
      not taken. The first argument bounds the repetitions by the length of the text.\<close>
  "greedy 0 f st = [st]"
| "greedy (Suc n) f st =
     concat (map (greedy n f) (filter (\<lambda>st'. length (fst st') < length (fst st)) (f st))) @ [st]"

primrec lazy :: "nat \<Rightarrow> (mstate \<Rightarrow> mstate list) \<Rightarrow> mstate \<Rightarrow> mstate list" where
  \<comment> \<open>\<open>r*?\<close>: no repetition first, then one more\<close>
  "lazy 0 f st = [st]"
| "lazy (Suc n) f st =
     st # concat (map (lazy n f) (filter (\<lambda>st'. length (fst st') < length (fst st)) (f st)))"

primrec matches :: "bool \<Rightarrow> rx \<Rightarrow> mstate \<Rightarrow> mstate list" where
  "matches ic Eps = (\<lambda>st. [st])"
| "matches ic (Atom cs) =
     (\<lambda>st. case fst st of [] \<Rightarrow> []
          | c # rest \<Rightarrow> if list_ex (in_cls ic c) cs then [(rest, snd st)] else [])"
| "matches ic (NotAtom cs) =
     (\<lambda>st. case fst st of [] \<Rightarrow> []
          | c # rest \<Rightarrow> if list_ex (in_cls ic c) cs then [] else [(rest, snd st)])"
| "matches ic (Seq a b) = (\<lambda>st. concat (map (matches ic b) (matches ic a st)))"
| "matches ic (Alt a b) = (\<lambda>st. matches ic a st @ matches ic b st)"
| "matches ic (Opt a) = (\<lambda>st. matches ic a st @ [st])"
| "matches ic (Star a) = (\<lambda>st. greedy (length (fst st)) (matches ic a) st)"
| "matches ic (Plus a) =
     (\<lambda>st. concat (map (\<lambda>st'. greedy (length (fst st')) (matches ic a) st') (matches ic a st)))"
| "matches ic (LazyStar a) = (\<lambda>st. lazy (length (fst st)) (matches ic a) st)"
| "matches ic (Times n a) = (\<lambda>st. exactly n (matches ic a) st)"
| "matches ic (Group a) =
     (\<lambda>st. map (\<lambda>st'. (fst st', Some (take (length (fst st) - length (fst st')) (fst st))))
               (matches ic a st))"

definition lit :: "string \<Rightarrow> rx" where
  \<comment> \<open>a run of literal characters\<close>
  "lit s = foldr (\<lambda>c r. Seq (Atom [CChar c]) r) s Eps"

definition ch :: "char \<Rightarrow> rx" where
  "ch c = Atom [CChar c]"

definition digit :: rx where
  "digit = Atom [CDigit]"

definition space :: rx where
  "space = Atom [CSpace]"

record rmatch =
  before :: string   \<comment> \<open>the text in front of the match\<close>
  rest :: string     \<comment> \<open>the text behind the match\<close>
  group1 :: "string option"    \<comment> \<open>\<open>match[1]\<close>, \<open>None\<close> for \<open>undefined\<close>\<close>

fun search :: "bool \<Rightarrow> rx \<Rightarrow> string \<Rightarrow> string \<Rightarrow> rmatch option" where
  \<comment> \<open>the leftmost match: every start position in turn, \<open>pre\<close> (reversed) is the text
      already passed\<close>
  "search ic r pre s =
     (case matches ic r (s, None) of
        st # _ \<Rightarrow> Some \<lparr>before = rev pre, rest = fst st, group1 = snd st\<rparr>
      | [] \<Rightarrow> (case s of [] \<Rightarrow> None | c # cs \<Rightarrow> search ic r (c # pre) cs))"

definition rx_match :: "bool \<Rightarrow> rx \<Rightarrow> string \<Rightarrow> rmatch option" where
  \<comment> \<open>\<open>text.match(pattern)\<close> and \<open>pattern.exec(text)\<close> from index 0\<close>
  "rx_match ic r s = search ic r [] s"

definition rx_test :: "bool \<Rightarrow> rx \<Rightarrow> string \<Rightarrow> bool" where
  "rx_test ic r s = (rx_match ic r s \<noteq> None)"


section \<open>extractCelexId\<close>

definition celex_number :: rx where
  \<comment> \<open>\<open>\d{5}[A-Z]\d{4}(?:\(\d+\))?\<close>\<close>
  "celex_number =
     Seq (Times 5 digit) (Seq (Atom [CRange (CHR ''A'') (CHR ''Z'')]) (Seq (Times 4 digit)
       (Opt (Seq (ch (CHR ''('')) (Seq (Plus digit) (ch (CHR '')'')))))))"

definition celex_prefixed :: rx where
  \<comment> \<open>\<open>/CELEX[:\s]*(\d{5}[A-Z]\d{4}(?:\(\d+\))?)/i\<close>\<close>
  "celex_prefixed =
     Seq (lit ''CELEX'') (Seq (Star (Atom [CChar (CHR '':''), CSpace])) (Group celex_number))"

definition celex_bare :: rx where
  \<comment> \<open>\<open>/(\d{5}[A-Z]\d{4}(?:\(\d+\))?)/\<close>\<close>
  "celex_bare = Group celex_number"

definition eu_marker :: rx where
  \<comment> \<open>\<open>\s*\(?EU\)?\s*\<close>\<close>
  "eu_marker =
     Seq (Star space) (Seq (Opt (ch (CHR ''(''))) (Seq (lit ''EU'') (Seq (Opt (ch (CHR '')'')))
       (Star space))))"

definition no_marker :: rx where
  \<comment> \<open>\<open>(?:No\.?\s*)?\<close>\<close>
  "no_marker = Opt (Seq (lit ''No'') (Seq (Opt (ch (CHR ''.''))) (Star space)))"

definition year_number :: rx where
  \<comment> \<open>\<open>\d{4}\/\d+\<close>\<close>
  "year_number = Seq (Times 4 digit) (Seq (ch (CHR ''/'')) (Plus digit))"

definition number_year :: rx where
  \<comment> \<open>\<open>\d+\/\d{4}\<close>\<close>
  "number_year = Seq (Plus digit) (Seq (ch (CHR ''/'')) (Times 4 digit))"

definition act_number :: rx where
  \<comment> \<open>\<open>/(?:Regulation|Directive|Decision)\s*\(?EU\)?\s*(?:No\.?\s*)?(\d{4}\/\d+)/i\<close>\<close>
  "act_number =
     Seq (Alt (lit ''Regulation'') (Alt (lit ''Directive'') (lit ''Decision'')))
       (Seq eu_marker (Seq no_marker (Group year_number)))"

definition celex_patterns :: "(bool \<times> rx) list" where
  \<comment> \<open>each pattern with its flag \<open>i\<close>\<close>
  "celex_patterns = [(True, celex_prefixed), (False, celex_bare), (True, act_number)]"

fun first_match :: "(bool \<times> rx) list \<Rightarrow> string \<Rightarrow> string option" where
  \<comment> \<open>the loop over the patterns: the first pattern that matches returns its \<open>match[1]\<close>\<close>
  "first_match [] text = None"
| "first_match (p # ps) text =
     (case rx_match (fst p) (snd p) text of
        Some m \<Rightarrow> group1 m
      | None \<Rightarrow> first_match ps text)"

definition extractCelexId :: "string option \<Rightarrow> string option" where
  \<comment> \<open>the argument is \<open>None\<close> for \<open>undefined\<close>; the result is \<open>None\<close> for \<open>null\<close>\<close>
  "extractCelexId text =
     (case text of
        None \<Rightarrow> None
      | Some t \<Rightarrow> if t = [] then None else first_match celex_patterns t)"


section \<open>extractLegalReferences\<close>

function exec_all :: "bool \<Rightarrow> rx \<Rightarrow> string \<Rightarrow> string option list" where
  \<comment> \<open>\<open>while ((match = pattern.exec(text)) !== null)\<close> for a pattern with the flag \<open>g\<close>:
      the values of \<open>match[1]\<close> of the successive matches, each search starting where
      the match before it ended. A match that reads nothing would leave \<open>lastIndex\<close>
      where it is; \<open>exec_all_progress\<close> shows that no pattern of the source has one.\<close>
  "exec_all ic r s =
     (case rx_match ic r s of
        None \<Rightarrow> []
      | Some m \<Rightarrow> if length (rest m) < length s then group1 m # exec_all ic r (rest m) else [])"
  by pat_completeness auto
termination
  by (relation "measure (\<lambda>(ic, r, s). length s)") auto

definition template :: "string option \<Rightarrow> string" where
  \<comment> \<open>a value inside a template literal: \<open>undefined\<close> prints as its name\<close>
  "template v = (case v of None \<Rightarrow> ''undefined'' | Some s \<Rightarrow> s)"

definition regulation_eu :: rx where
  \<comment> \<open>\<open>/Regulation\s*\(?EU\)?\s*(?:No\.?\s*)?(\d{4}\/\d+|\d+\/\d{4})/gi\<close>\<close>
  "regulation_eu =
     Seq (lit ''Regulation'') (Seq eu_marker (Seq no_marker (Group (Alt year_number number_year))))"

definition regulation_eu_year :: rx where
  \<comment> \<open>\<open>/Regulation\s*\(?EU\)?\s*(\d{4}\/\d+)/gi\<close>\<close>
  "regulation_eu_year = Seq (lit ''Regulation'') (Seq eu_marker (Group year_number))"

definition eu_ec_number :: rx where
  \<comment> \<open>\<open>/(?:EU|EC)\s*(?:No\.?\s*)?(\d+\/\d{4})/gi\<close>\<close>
  "eu_ec_number =
     Seq (Alt (lit ''EU'') (lit ''EC'')) (Seq (Star space) (Seq no_marker (Group number_year)))"

definition directive_eu :: rx where
  \<comment> \<open>\<open>/Directive\s*\(?EU\)?\s*(?:No\.?\s*)?(\d{4}\/\d+|\d+\/\d{4})/gi\<close>\<close>
  "directive_eu =
     Seq (lit ''Directive'') (Seq eu_marker (Seq no_marker (Group (Alt year_number number_year))))"

definition directive_year :: rx where
  \<comment> \<open>\<open>/Directive\s*(\d{4}\/\d+)/gi\<close>\<close>
  "directive_year = Seq (lit ''Directive'') (Seq (Star space) (Group year_number))"

definition regPatterns :: "rx list" where
  "regPatterns = [regulation_eu, regulation_eu_year, eu_ec_number]"

definition dirPatterns :: "rx list" where
  "dirPatterns = [directive_eu, directive_year]"

definition acronyms :: "(string \<times> string) list" where
  "acronyms =
     [(''GDPR'', ''Regulation (EU) 2016/679''),
      (''DSA'', ''Regulation (EU) 2022/2065''),
      (''DMA'', ''Regulation (EU) 2022/1925''),
      (''AI Act'', ''Regulation (EU) 2024/1689''),
      (''MiCA'', ''Regulation (EU) 2023/1114''),
      (''DORA'', ''Regulation (EU) 2022/2554''),
      (''ePrivacy'', ''Directive 2002/58/EC''),
      (''NIS2'', ''Directive (EU) 2022/2555''),
      (''CRA'', ''Cyber Resilience Act''),
      (''Data Act'', ''Regulation (EU) 2023/2854''),
      (''MiFID II'', ''Directive 2014/65/EU''),
      (''MiFIR'', ''Regulation (EU) 600/2014'')]"

definition add_ref :: "string \<Rightarrow> string list \<Rightarrow> string list" where
  \<comment> \<open>\<open>references.add(x)\<close>: a \<open>Set\<close> keeps its members in insertion order, once each\<close>
  "add_ref x refs = (if x \<in> set refs then refs else refs @ [x])"

definition add_matches :: "string \<Rightarrow> string \<Rightarrow> rx \<Rightarrow> string list \<Rightarrow> string list" where
  \<comment> \<open>the inner loop for one pattern: every match adds \<open>kind\<close> followed by \<open>match[1]\<close>\<close>
  "add_matches kind text p refs =
     fold (\<lambda>g acc. add_ref (kind @ template g) acc) (exec_all True p text) refs"

definition add_acronyms :: "string \<Rightarrow> string list \<Rightarrow> string list" where
  "add_acronyms text refs =
     fold (\<lambda>entry acc. if str_includes text (fst entry) then add_ref (snd entry) acc else acc)
       acronyms refs"

definition pattern_references :: "string \<Rightarrow> string list" where
  \<comment> \<open>the set after the regulation and the directive loops\<close>
  "pattern_references text =
     fold (add_matches ''Directive '' text) dirPatterns
       (fold (add_matches ''Regulation '' text) regPatterns [])"

definition extractLegalReferences :: "string \<Rightarrow> string list" where
  \<comment> \<open>\<open>Array.from(references)\<close>; \<open>!text\<close> holds of the empty string\<close>
  "extractLegalReferences text =
     (if text = [] then [] else add_acronyms text (pattern_references text))"

section \<open>findRelatedDocuments\<close>

record doc =
  item_id :: "string option"    \<comment> \<open>the field \<open>id\<close>\<close>
  title :: "string option"
  url :: "string option"
  summary :: "string option"
  added :: "string option"
  date :: "string option"
  categories :: "string list option"
  tags :: "string list option"

datatype relationship = SameRegulation | References | ReferencedBy | Amendment | Related

record scored =
  item :: doc
  score :: int
  relationship :: relationship

record clock =
  now :: int    \<comment> \<open>\<open>Date.now()\<close>, in milliseconds\<close>
  getTime :: "string \<Rightarrow> int option"    \<comment> \<open>\<open>new Date(s).getTime()\<close>, \<open>None\<close> for \<open>NaN\<close>\<close>

definition truthy :: "string option \<Rightarrow> bool" where
  "truthy v = (case v of None \<Rightarrow> False | Some s \<Rightarrow> s \<noteq> [])"

definition js_or :: "string option \<Rightarrow> string option \<Rightarrow> string option" where
  \<comment> \<open>\<open>a || b\<close>\<close>
  "js_or a b = (if truthy a then a else b)"

definition or_empty :: "string option \<Rightarrow> string" where
  \<comment> \<open>\<open>a || ''\<close>\<close>
  "or_empty a = (case a of None \<Rightarrow> [] | Some s \<Rightarrow> s)"

definition doc_text :: "doc \<Rightarrow> string" where
  \<comment> \<open>\<open>`${item.title || ''} ${item.summary || ''}`.toLowerCase()\<close>\<close>
  "doc_text d = toLowerCase (or_empty (title d) @ '' '' @ or_empty (summary d))"

definition doc_celex :: "doc \<Rightarrow> string option" where
  \<comment> \<open>\<open>extractCelexId(item.title) || extractCelexId(item.url)\<close>\<close>
  "doc_celex d = js_or (extractCelexId (title d)) (extractCelexId (url d))"

definition same_base :: "string option \<Rightarrow> string option \<Rightarrow> bool" where
  \<comment> \<open>\<open>itemCelex && otherCelex\<close> and \<open>itemCelex.slice(0, 9) === otherCelex.slice(0, 9)\<close>\<close>
  "same_base a b =
     (case a of None \<Rightarrow> False
      | Some x \<Rightarrow> (case b of None \<Rightarrow> False
          | Some y \<Rightarrow> x \<noteq> [] \<and> y \<noteq> [] \<and> slice0 x 9 = slice0 y 9))"

definition mentions :: "string list \<Rightarrow> string \<Rightarrow> bool" where
  \<comment> \<open>\<open>refs.some(ref => text.includes(ref.toLowerCase()))\<close>\<close>
  "mentions refs text = list_ex (\<lambda>ref. str_includes text (toLowerCase ref)) refs"

definition tense :: rx where
  \<comment> \<open>\<open>(?:ing|s|ed)?\<close>\<close>
  "tense = Opt (Alt (lit ''ing'') (Alt (lit ''s'') (lit ''ed'')))"

definition amendPatterns :: "rx list" where
  \<comment> \<open>\<open>/amend(?:ing|s|ed)?/i\<close>, \<open>/implement(?:ing|s|ed)?/i\<close>, \<open>/supplement(?:ing|s|ed)?/i\<close>,
      \<open>/delegat(?:ing|ed)/i\<close>, \<open>/corrigendum/i\<close>\<close>
  "amendPatterns =
     [Seq (lit ''amend'') tense,
      Seq (lit ''implement'') tense,
      Seq (lit ''supplement'') tense,
      Seq (lit ''delegat'') (Alt (lit ''ing'') (lit ''ed'')),
      lit ''corrigendum'']"

definition amends :: "doc \<Rightarrow> string list \<Rightarrow> string \<Rightarrow> bool" where
  \<comment> \<open>the loop over \<open>amendPatterns\<close>: some pattern passes \<open>pattern.test(other.title)\<close>, which
      reads a missing title as the text \<open>undefined\<close>, and \<open>otherRefs\<close> has a member that
      the target's text contains\<close>
  "amends other otherRefs itemText =
     list_ex (\<lambda>p. rx_test True p (template (title other)) \<and> mentions otherRefs itemText)
       amendPatterns"

definition cats :: "doc \<Rightarrow> string list" where
  \<comment> \<open>\<open>new Set([...(item.categories || []), ...(item.tags || [])])\<close>\<close>
  "cats d =
     remdups ((case categories d of None \<Rightarrow> [] | Some cs \<Rightarrow> cs)
              @ (case tags d of None \<Rightarrow> [] | Some ts \<Rightarrow> ts))"

function split_ws :: "string \<Rightarrow> string \<Rightarrow> string list" where
  \<comment> \<open>\<open>text.split(/\s+/)\<close>; the first argument is the piece being read, reversed\<close>
  "split_ws cur [] = [rev cur]"
| "split_ws cur (c # cs) =
     (if is_space c then rev cur # split_ws [] (dropWhile is_space cs)
      else split_ws (c # cur) cs)"
  by pat_completeness auto
termination
  by (relation "measure (\<lambda>(cur, s). length s)") (auto simp: length_dropWhile_le less_Suc_eq_le)

definition long_words :: "string \<Rightarrow> string list" where
  \<comment> \<open>\<open>new Set(text.split(/\s+/).filter(w => w.length > 4))\<close>\<close>
  "long_words text = remdups (filter (\<lambda>w. length w > 4) (split_ws [] text))"

definition shared :: "string list \<Rightarrow> string list \<Rightarrow> nat" where
  \<comment> \<open>\<open>[...a].filter(x => b.has(x)).length\<close>\<close>
  "shared a b = length (filter (\<lambda>x. x \<in> set b) a)"

definition recency :: "clock \<Rightarrow> doc \<Rightarrow> int" where
  \<comment> \<open>\<open>daysDiff\<close> is \<open>|now - t| / 86400000\<close>: it is below 30 exactly when the difference in
      milliseconds is below \<open>30 * 86400000\<close>; a comparison with \<open>NaN\<close> is false\<close>
  "recency c other =
     (let stamp = js_or (added other) (date other)
      in if truthy stamp then
           (case getTime c (or_empty stamp) of
              None \<Rightarrow> 0
            | Some t \<Rightarrow>
                if \<bar>now c - t\<bar> < 30 * 86400000 then 10
                else if \<bar>now c - t\<bar> < 90 * 86400000 then 5 else 0)
         else 0)"

definition or_rel :: "relationship option \<Rightarrow> relationship \<Rightarrow> relationship option" where
  \<comment> \<open>\<open>relationship || r\<close>\<close>
  "or_rel cur r = (case cur of None \<Rightarrow> Some r | Some x \<Rightarrow> Some x)"

definition score_candidate :: "clock \<Rightarrow> doc \<Rightarrow> doc \<Rightarrow> int \<times> relationship option" where
  \<comment> \<open>the body of the loop for one candidate: the score and the relationship, \<open>None\<close>
      for \<open>null\<close>, after each step in turn\<close>
  "score_candidate c target other =
     (let itemText = doc_text target;
          itemCelex = doc_celex target;
          itemRefs = extractLegalReferences itemText;
          otherText = doc_text other;
          otherCelex = doc_celex other;
          otherRefs = extractLegalReferences otherText;
          s0 = (0, None);
          s1 = (if same_base itemCelex otherCelex then (fst s0 + 50, Some SameRegulation) else s0);
          s2 = (if mentions itemRefs otherText then (fst s1 + 30, or_rel (snd s1) References)
                else s1);
          s3 = (if mentions otherRefs itemText then (fst s2 + 30, or_rel (snd s2) ReferencedBy)
                else s2);
          s4 = (if amends other otherRefs itemText then (fst s3 + 40, Some Amendment) else s3);
          s5 = (fst s4 + int (shared (cats target) (cats other)) * 5, snd s4);
          s6 = (fst s5
                 + min (int (shared (long_words itemText) (long_words otherText)) * 2) 20,
                snd s5)
      in (fst s6 + recency c other, snd s6))"

definition is_target :: "doc \<Rightarrow> doc \<Rightarrow> bool" where
  \<comment> \<open>\<open>other.id === item.id || other.url === item.url\<close>; a missing field is \<open>undefined\<close>,
      equal to itself\<close>
  "is_target target other = (item_id other = item_id target \<or> url other = url target)"

definition candidate :: "clock \<Rightarrow> doc \<Rightarrow> doc \<Rightarrow> scored list" where
  \<comment> \<open>what one pass of the loop pushes onto \<open>scored\<close>\<close>
  "candidate c target other =
     (if is_target target other then []
      else (let r = score_candidate c target other
            in if fst r > 10
               then [\<lparr>item = other, score = fst r,
                      relationship = (case snd r of None \<Rightarrow> Related | Some x \<Rightarrow> x)\<rparr>]
               else []))"

definition scored_candidates :: "clock \<Rightarrow> doc \<Rightarrow> doc list \<Rightarrow> scored list" where
  "scored_candidates c target allItems = concat (map (candidate c target) allItems)"

definition max_results :: "int option \<Rightarrow> int" where
  \<comment> \<open>\<open>const { maxResults = 10 } = options\<close>\<close>
  "max_results maxResults = (case maxResults of None \<Rightarrow> 10 | Some n \<Rightarrow> n)"

definition findRelatedDocuments ::
  "clock \<Rightarrow> doc option \<Rightarrow> doc list option \<Rightarrow> int option \<Rightarrow> scored list" where
  \<comment> \<open>the last argument is \<open>options.maxResults\<close>, 10 when it is missing.
      \<open>Array.prototype.sort\<close> is stable, and \<open>(a, b) => b.score - a.score\<close> orders by
      falling score.\<close>
  "findRelatedDocuments c target allItems maxResults =
     (case target of
        None \<Rightarrow> []
      | Some t \<Rightarrow>
          (case allItems of
             None \<Rightarrow> []
           | Some items \<Rightarrow>
               if items = [] then []
               else slice0 (sort_key (\<lambda>m. - score m) (scored_candidates c t items))
                      (max_results maxResults)))"


section \<open>stripHtml\<close>

function replace_all :: "bool \<Rightarrow> rx \<Rightarrow> string \<Rightarrow> string \<Rightarrow> string" where
  \<comment> \<open>\<open>s.replace(pattern, rep)\<close> for a pattern with the flag \<open>g\<close> and a replacement without
      \<open>$\<close>: every match, left to right, each search starting where the match before it
      ended. No pattern of \<open>stripHtml\<close> has a match that reads nothing
      (\<open>replace_all_progress\<close>).\<close>
  "replace_all ic r rep s =
     (case rx_match ic r s of
        None \<Rightarrow> s
      | Some m \<Rightarrow>
          if length (rest m) < length s then before m @ rep @ replace_all ic r rep (rest m)
          else s)"
  by pat_completeness auto
termination
  by (relation "measure (\<lambda>(ic, r, rep, s). length s)") auto

definition any_char :: rx where
  \<comment> \<open>\<open>[\s\S]\<close>\<close>
  "any_char = NotAtom []"

definition element_block :: "string \<Rightarrow> rx" where
  \<comment> \<open>\<open><tag[\s\S]*?<\/tag>\<close>\<close>
  "element_block tag =
     Seq (lit (''<'' @ tag)) (Seq (LazyStar any_char) (lit (''</'' @ tag @ ''>'')))"

definition html_comment :: rx where
  \<comment> \<open>\<open><!--[\s\S]*?-->\<close>\<close>
  "html_comment = Seq (lit ''<!--'') (Seq (LazyStar any_char) (lit ''-->''))"

definition any_tag :: rx where
  \<comment> \<open>\<open><[^>]+>\<close>\<close>
  "any_tag = Seq (ch (CHR ''<'')) (Seq (Plus (NotAtom [CChar (CHR ''>'')])) (ch (CHR ''>'')))"

definition strip_steps :: "(bool \<times> rx \<times> string) list" where
  \<comment> \<open>the chain of \<open>replace\<close> calls: the flag \<open>i\<close>, the pattern, the replacement\<close>
  "strip_steps =
     [(True, element_block ''script'', ''''),
      (True, element_block ''style'', ''''),
      (True, element_block ''nav'', ''''),
      (True, element_block ''footer'', ''''),
      (True, element_block ''header'', ''''),
      (True, element_block ''aside'', ''''),
      (False, html_comment, ''''),
      (False, any_tag, '' ''),
      (False, lit ''&nbsp;'', '' ''),
      (False, lit ''&amp;'', ''&''),
      (False, lit ''&lt;'', ''<''),
      (False, lit ''&gt;'', ''>''),
      (False, lit ''&quot;'', [CHR 0x22]),
      (False, lit ''&#39;'', [CHR 0x27]),
      (False, Plus space, '' '')]"

definition stripHtml :: "string \<Rightarrow> string" where
  \<comment> \<open>\<open>String(html || '')\<close> of a string is the string\<close>
  "stripHtml html =
     trim (fold (\<lambda>step s. replace_all (fst step) (fst (snd step)) (snd (snd step)) s)
             strip_steps html)"


section \<open>extractMainContent\<close>

text \<open>
  The parsed document is a tree of nodes. An element carries its local name (lower
  case in an HTML document, \<open>tagName\<close> being its upper-case form), its attributes and its
  children. Parsing (\<open>DOMParser\<close>) and serialisation (\<open>innerHTML\<close>) belong to the browser
  and are parameters.
\<close>

datatype node = Text string | Comment string | Element string "(string \<times> string) list" "node list"

record browser =
  parseFromString :: "string \<Rightarrow> node"    \<comment> \<open>the root element of the parsed document\<close>
  innerHTML :: "node \<Rightarrow> string"

fun textContent :: "node \<Rightarrow> string" where
  \<comment> \<open>the text of all text nodes below, in document order\<close>
  "textContent (Text s) = s"
| "textContent (Comment s) = []"
| "textContent (Element t as cs) = concat (map textContent cs)"

fun descendants :: "node \<Rightarrow> node list" where
  \<comment> \<open>the nodes below a node, in document order (a node before its children)\<close>
  "descendants (Text s) = []"
| "descendants (Comment s) = []"
| "descendants (Element t as cs) = concat (map (\<lambda>c. c # descendants c) cs)"

definition has_tag :: "string list \<Rightarrow> node \<Rightarrow> bool" where
  "has_tag names n = (case n of Element t as cs \<Rightarrow> t \<in> set names | _ \<Rightarrow> False)"

definition querySelectorAll :: "string list \<Rightarrow> node \<Rightarrow> node list" where
  \<comment> \<open>\<open>el.querySelectorAll('t1, t2, ...')\<close>: the elements below \<open>el\<close> with one of the tag
      names, in document order\<close>
  "querySelectorAll names el = filter (has_tag names) (descendants el)"

datatype selector = ByTag string | ByRole string | ByClass string | ById string

definition class_space :: "char \<Rightarrow> bool" where
  \<comment> \<open>what separates the names in a \<open>class\<close> attribute\<close>
  "class_space c = (code c = 9 \<or> code c = 10 \<or> code c = 12 \<or> code c = 13 \<or> code c = 32)"

fun class_names :: "string \<Rightarrow> string \<Rightarrow> string list" where
  "class_names cur [] = [rev cur]"
| "class_names cur (c # cs) =
     (if class_space c then rev cur # class_names [] cs else class_names (c # cur) cs)"

fun selects :: "selector \<Rightarrow> node \<Rightarrow> bool" where
  "selects sel (Text s) = False"
| "selects sel (Comment s) = False"
| "selects (ByTag t) (Element tag as cs) = (tag = t)"
| "selects (ByRole r) (Element tag as cs) = (map_of as ''role'' = Some r)"
| "selects (ByClass c) (Element tag as cs) =
     (case map_of as ''class'' of None \<Rightarrow> False | Some v \<Rightarrow> c \<noteq> [] \<and> c \<in> set (class_names [] v))"
| "selects (ById i) (Element tag as cs) = (map_of as ''id'' = Some i)"

definition querySelector :: "node \<Rightarrow> selector \<Rightarrow> node option" where
  \<comment> \<open>\<open>doc.querySelector(sel)\<close>: the first element of the document, in document order\<close>
  "querySelector root sel = find (selects sel) (root # descendants root)"

definition body :: "node \<Rightarrow> node option" where
  \<comment> \<open>\<open>doc.body\<close>: the first \<open>body\<close> or \<open>frameset\<close> child of the \<open>html\<close> element\<close>
  "body root =
     (case root of
        Element t as cs \<Rightarrow>
          if t = ''html'' then find (has_tag [''body'', ''frameset'']) cs else None
      | _ \<Rightarrow> None)"

definition selectors :: "selector list" where
  "selectors =
     [ByTag ''article'', ByTag ''main'', ByRole ''main'', ByClass ''content'',
      ByClass ''article-content'', ByClass ''post-content'', ById ''content'', ById ''main'',
      ByClass ''eli-main-body'', ByClass ''texte'', ByClass ''doc-content'']"

fun first_selected :: "node \<Rightarrow> selector list \<Rightarrow> node option" where
  \<comment> \<open>the loop over \<open>selectors\<close>, which stops at the first that selects an element\<close>
  "first_selected root [] = None"
| "first_selected root (sel # sels) =
     (case querySelector root sel of Some el \<Rightarrow> Some el | None \<Rightarrow> first_selected root sels)"

definition mainElement :: "node \<Rightarrow> node option" where
  "mainElement root =
     (case first_selected root selectors of Some el \<Rightarrow> Some el | None \<Rightarrow> body root)"

datatype block = Heading nat string | Paragraph string | ListItem string | Table string

definition nl :: string where
  \<comment> \<open>\<open>'\n'\<close>\<close>
  "nl = [CHR 0x0A]"

definition level :: "node \<Rightarrow> nat" where
  \<comment> \<open>\<open>parseInt(h.tagName[1])\<close> for \<open>H1\<close> to \<open>H6\<close>\<close>
  "level h = (case h of Element [c, d] as cs \<Rightarrow> code d - 48 | _ \<Rightarrow> 0)"

definition heading_section :: "node \<Rightarrow> block list" where
  "heading_section h =
     (let text = trim (textContent h) in if text \<noteq> [] then [Heading (level h) text] else [])"

definition paragraph_section :: "node \<Rightarrow> block list" where
  "paragraph_section p =
     (let text = trim (textContent p)
      in if text \<noteq> [] \<and> length text > 20 then [Paragraph text] else [])"

definition item_section :: "node \<Rightarrow> block list" where
  "item_section li =
     (let text = trim (textContent li)
      in if text \<noteq> [] \<and> length text > 10 then [ListItem text] else [])"

definition row_text :: "node \<Rightarrow> string list" where
  "row_text tr =
     (let cells = map (\<lambda>cell. trim (textContent cell)) (querySelectorAll [''th'', ''td''] tr)
      in if length cells > 0 then [join '' | '' cells] else [])"

definition table_section :: "node \<Rightarrow> block list" where
  "table_section table =
     (let rows = concat (map row_text (querySelectorAll [''tr''] table))
      in if length rows > 0 then [Table (join nl rows)] else [])"

definition heading_tags :: "string list" where
  "heading_tags = [''h1'', ''h2'', ''h3'', ''h4'', ''h5'', ''h6'']"

definition extractSections :: "node \<Rightarrow> block list" where
  \<comment> \<open>the array \<open>sections\<close> after the four \<open>forEach\<close> loops\<close>
  "extractSections mainEl =
     concat (map heading_section (querySelectorAll heading_tags mainEl))
     @ concat (map paragraph_section (querySelectorAll [''p''] mainEl))
     @ concat (map item_section (querySelectorAll [''li''] mainEl))
     @ concat (map table_section (querySelectorAll [''table''] mainEl))"

definition bullet :: string where
  \<comment> \<open>the three characters between the line break and the space in the list item prefix
      of the source, U+00E2 U+20AC U+00A2; the second is beyond 255 and stands here as
      its Windows-1252 code\<close>
  "bullet = [CHR 0xE2, CHR 0x80, CHR 0xA2]"

fun render :: "block \<Rightarrow> string" where
  "render (Heading l text) = nl @ nl @ replicate l (CHR ''#'') @ '' '' @ text @ nl"
| "render (Paragraph text) = nl @ text"
| "render (ListItem text) = nl @ bullet @ '' '' @ text"
| "render (Table text) = nl @ nl @ ''[TABLE]'' @ nl @ text @ nl @ ''[/TABLE]'' @ nl"

definition extractMainContent :: "browser \<Rightarrow> string \<Rightarrow> string" where
  "extractMainContent b html =
     (case mainElement (parseFromString b html) of
        None \<Rightarrow> stripHtml html
      | Some mainEl \<Rightarrow>
          (let result = concat (map render (extractSections mainEl))
           in if length (trim result) < 200 then trim (stripHtml (innerHTML b mainEl))
              else trim result))"

definition classify :: "node \<Rightarrow> block list" where
  \<comment> \<open>the section of one element, by its tag\<close>
  "classify n =
     (if has_tag heading_tags n then heading_section n
      else if has_tag [''p''] n then paragraph_section n
      else if has_tag [''li''] n then item_section n
      else if has_tag [''table''] n then table_section n
      else [])"

definition sections_in_document_order :: "node \<Rightarrow> block list" where
  \<comment> \<open>what the specification asks for: the sections of the elements below the container,
      each at the place of its element\<close>
  "sections_in_document_order mainEl = concat (map classify (descendants mainEl))"

fun is_heading :: "block \<Rightarrow> bool" where
  "is_heading (Heading l t) = True"
| "is_heading s = False"

fun is_paragraph :: "block \<Rightarrow> bool" where
  "is_paragraph (Paragraph t) = True"
| "is_paragraph s = False"

fun is_list_item :: "block \<Rightarrow> bool" where
  "is_list_item (ListItem t) = True"
| "is_list_item s = False"

fun is_table :: "block \<Rightarrow> bool" where
  "is_table (Table t) = True"
| "is_table s = False"


section \<open>fetchDocumentContent\<close>

text \<open>
  The network and the PDF reader are outside the program. What they answer during one
  call is given as a value, the \<open>world\<close>: for each request either the exception it
  raises or the response it returns. An \<open>async\<close> function that rejects is a function
  that throws. A parsed JSON value is a \<open>json\<close>; its numbers are the integers, which is
  what \<open>originalLength\<close> holds.
\<close>

datatype json =
  JNull | JBool bool | JNum int | JStr string | JArr "json list" | JObj "(string \<times> json) list"

datatype exn = Exn (exn_name: string) (exn_message: string)

datatype 'a attempt = Throws exn | Returns 'a

definition TypeError :: exn where
  \<comment> \<open>reading a property of \<open>null\<close> or \<open>undefined\<close>, or calling what is not a function\<close>
  "TypeError = Exn ''TypeError'' ''Cannot read properties''"

definition field :: "json \<Rightarrow> string \<Rightarrow> json option" where
  \<comment> \<open>\<open>value.name\<close> for a value that is not \<open>null\<close>, \<open>None\<close> for \<open>undefined\<close>. In a parsed
      object the last of several equal keys counts. None of the names the source reads
      is a property of a string, an array, a number or a boolean.\<close>
  "field v k = (case v of JObj kvs \<Rightarrow> map_of (rev kvs) k | _ \<Rightarrow> None)"

definition get_field :: "json \<Rightarrow> string \<Rightarrow> json option attempt" where
  \<comment> \<open>\<open>value.name\<close>\<close>
  "get_field v k = (if v = JNull then Throws TypeError else Returns (field v k))"

definition truthy_json :: "json option \<Rightarrow> bool" where
  "truthy_json v =
     (case v of
        None \<Rightarrow> False
      | Some JNull \<Rightarrow> False
      | Some (JBool b) \<Rightarrow> b
      | Some (JNum n) \<Rightarrow> n \<noteq> 0
      | Some (JStr s) \<Rightarrow> s \<noteq> []
      | Some (JArr xs) \<Rightarrow> True
      | Some (JObj kvs) \<Rightarrow> True)"

definition js_slice :: "json option \<Rightarrow> int \<Rightarrow> json attempt" where
  \<comment> \<open>\<open>value.slice(0, n)\<close>: strings and arrays have the method\<close>
  "js_slice v n =
     (case v of
        Some (JStr s) \<Rightarrow> Returns (JStr (slice0 s n))
      | Some (JArr xs) \<Rightarrow> Returns (JArr (slice0 xs n))
      | _ \<Rightarrow> Throws TypeError)"

definition js_length :: "json \<Rightarrow> nat" where
  \<comment> \<open>\<open>value.length\<close> of a string or an array\<close>
  "js_length v = (case v of JStr s \<Rightarrow> length s | JArr xs \<Rightarrow> length xs | _ \<Rightarrow> 0)"

function show_nat :: "nat \<Rightarrow> string" where
  \<comment> \<open>a number inside a template literal\<close>
  "show_nat n =
     (if n < 10 then [char_of (48 + n)] else show_nat (n div 10) @ [char_of (48 + n mod 10)])"
  by pat_completeness auto
termination
  by (relation "measure (\<lambda>n. n)") auto

record backend_response =
  backend_ok :: bool    \<comment> \<open>\<open>response.ok\<close>\<close>
  backend_status :: nat
  backend_json :: "json attempt"    \<comment> \<open>\<open>await response.json()\<close>\<close>

definition backend_catch :: "exn \<Rightarrow> json" where
  \<comment> \<open>the \<open>catch\<close> block of \<open>fetchViaBackend\<close>\<close>
  "backend_catch e =
     (if exn_name e = ''AbortError''
      then JObj [(''success'', JBool False), (''error'', JStr ''Backend request timeout'')]
      else JObj [(''success'', JBool False), (''error'', JStr ''backend_unavailable''),
                 (''isBackendError'', JBool True)])"

definition fetchViaBackend :: "backend_response attempt \<Rightarrow> json" where
  "fetchViaBackend reply =
     (case reply of
        Throws e \<Rightarrow> backend_catch e
      | Returns response \<Rightarrow>
          if \<not> backend_ok response then
            (let error = (case backend_json response of Throws e \<Rightarrow> JObj [] | Returns j \<Rightarrow> j)
             in case get_field error ''error'' of
                  Throws e \<Rightarrow> backend_catch e
                | Returns v \<Rightarrow>
                    JObj [(''success'', JBool False),
                          (''error'',
                           if truthy_json v then (case v of Some j \<Rightarrow> j | None \<Rightarrow> JNull)
                           else JStr (''HTTP '' @ show_nat (backend_status response)))])
          else (case backend_json response of
                  Throws e \<Rightarrow> backend_catch e
                | Returns data \<Rightarrow> data))"

type_synonym pdf_page = "string list attempt"
  \<comment> \<open>\<open>getPage(i)\<close> and \<open>getTextContent()\<close>: the \<open>str\<close> of each item of the page\<close>

fun page_texts :: "(string \<Rightarrow> string) \<Rightarrow> nat \<Rightarrow> pdf_page list \<Rightarrow> string list attempt" where
  \<comment> \<open>the loop over the pages from number \<open>i\<close> on; \<open>f\<close> is what is done to the joined text
      of a page\<close>
  "page_texts f i [] = Returns []"
| "page_texts f i (p # ps) =
     (case p of
        Throws e \<Rightarrow> Throws e
      | Returns items \<Rightarrow>
          (let pageText = f (join '' '' items)
           in case page_texts f (Suc i) ps of
                Throws e \<Rightarrow> Throws e
              | Returns parts \<Rightarrow>
                  Returns ((if trim pageText \<noteq> []
                            then [''[Page '' @ show_nat i @ '']'' @ nl @ pageText] else [])
                           @ parts)))"

record pdf_response =
  pdf_ok :: bool
  pdf_status :: nat
  pdf_buffer :: "exn option"    \<comment> \<open>what \<open>response.arrayBuffer()\<close> throws, if it does\<close>
  pdf_document :: "pdf_page list attempt"    \<comment> \<open>\<open>getDocument({data}).promise\<close>, page by page\<close>

definition extractPdfText :: "exn option \<Rightarrow> pdf_response attempt \<Rightarrow> string option" where
  \<comment> \<open>the first argument is what \<open>initPdfJs()\<close> throws, if it does; \<open>None\<close> as a result is
      \<open>null\<close>\<close>
  "extractPdfText pdfjs reply =
     (case pdfjs of
        Some e \<Rightarrow> None
      | None \<Rightarrow>
          (case reply of
             Throws e \<Rightarrow> None
           | Returns response \<Rightarrow>
               if \<not> pdf_ok response then None
               else (case pdf_buffer response of
                  Some e \<Rightarrow> None
                | None \<Rightarrow>
                    (case pdf_document response of
                       Throws e \<Rightarrow> None
                     | Returns pages \<Rightarrow>
                         (let numPages = length pages;
                              maxPages = min numPages 50
                          in case page_texts (replace_all False (Plus space) '' '') 1
                                    (take maxPages pages) of
                               Throws e \<Rightarrow> None
                             | Returns textParts \<Rightarrow>
                                 Some (join (nl @ nl)
                                   (textParts @
                                    (if numPages > maxPages
                                     then [nl @ ''[Note: Document has '' @ show_nat numPages
                                           @ '' pages, showing first '' @ show_nat maxPages
                                           @ '']'']
                                     else []))))))))"

definition isPdfUrl :: "string option \<Rightarrow> bool" where
  "isPdfUrl address =
     (if \<not> truthy address then False
      else (let lower = toLowerCase (or_empty address)
            in endsWith lower ''.pdf'' \<or> str_includes lower ''/pdf/''
               \<or> str_includes lower ''format=pdf'' \<or> str_includes lower ''type=pdf''))"

record page_response =
  page_ok :: bool
  page_status :: nat
  page_content_type :: "string option"    \<comment> \<open>\<open>response.headers.get('content-type')\<close>\<close>
  page_buffer :: "exn option"
  page_document :: "pdf_page list attempt"
  page_text :: "string attempt"    \<comment> \<open>\<open>await response.text()\<close>\<close>

record world =
  backend_reply :: "backend_response attempt"    \<comment> \<open>the request to the backend server\<close>
  pdfjs_failure :: "exn option"    \<comment> \<open>what \<open>initPdfJs()\<close> throws, if it does\<close>
  pdf_reply :: "pdf_response attempt"    \<comment> \<open>\<open>fetch(url)\<close> in \<open>extractPdfText\<close>\<close>
  page_reply :: "page_response attempt"    \<comment> \<open>\<open>fetch(url, ...)\<close> in \<open>fetchDocumentContent\<close>\<close>
  dom :: browser

datatype channel = Backend | Direct

datatype extraction =
    Extracted (content: json) (ctype: "json option") (truncated: bool)
      (originalLength: "json option") (source: channel)
  | Failed (error: string)

definition max_length :: "int option \<Rightarrow> int" where
  \<comment> \<open>\<open>const { maxLength = 100000 } = options\<close>\<close>
  "max_length maxLength = (case maxLength of None \<Rightarrow> 100000 | Some n \<Rightarrow> n)"

definition extracted_text :: "string \<Rightarrow> string \<Rightarrow> int \<Rightarrow> extraction" where
  \<comment> \<open>the success value of the direct channel\<close>
  "extracted_text text kind n =
     Extracted (JStr (slice0 text n)) (Some (JStr kind)) (n < int (length text))
       (Some (JNum (int (length text)))) Direct"

definition direct_catch :: "json \<Rightarrow> exn \<Rightarrow> extraction" where
  \<comment> \<open>the \<open>catch\<close> block of \<open>fetchDocumentContent\<close>\<close>
  "direct_catch backendResult e =
     (if exn_name e = ''AbortError'' then Failed ''Request timeout''
      else Failed (if truthy_json (field backendResult ''isBackendError'')
                   then ''Direct fetch failed ('' @ exn_message e
                        @ ''). Start the backend server: python backend/server.py''
                   else exn_message e))"

definition direct_page :: "world \<Rightarrow> int \<Rightarrow> json \<Rightarrow> extraction" where
  \<comment> \<open>the \<open>try\<close> block from \<open>fetch(url, ...)\<close> on\<close>
  "direct_page w n backendResult =
     (case page_reply w of
        Throws e \<Rightarrow> direct_catch backendResult e
      | Returns response \<Rightarrow>
          if \<not> page_ok response then Failed (''HTTP '' @ show_nat (page_status response))
          else if str_includes (or_empty (page_content_type response)) ''application/pdf'' then
            (case page_buffer response of
               Some e \<Rightarrow> direct_catch backendResult e
             | None \<Rightarrow>
                 (case pdfjs_failure w of
                    Some e \<Rightarrow> direct_catch backendResult e
                  | None \<Rightarrow>
                      (case page_document response of
                         Throws e \<Rightarrow> direct_catch backendResult e
                       | Returns pages \<Rightarrow>
                           (case page_texts (\<lambda>s. s) 1 (take (min (length pages) 50) pages) of
                              Throws e \<Rightarrow> direct_catch backendResult e
                            | Returns textParts \<Rightarrow>
                                extracted_text (join (nl @ nl) textParts) ''pdf'' n))))
          else (case page_text response of
                  Throws e \<Rightarrow> direct_catch backendResult e
                | Returns html \<Rightarrow> extracted_text (extractMainContent (dom w) html) ''html'' n))"

definition direct :: "world \<Rightarrow> string option \<Rightarrow> int \<Rightarrow> json \<Rightarrow> extraction" where
  \<comment> \<open>the \<open>try\<close> block: a PDF by its URL first, when the reader gives a text that is not
      empty\<close>
  "direct w address n backendResult =
     (let pdfText = (if isPdfUrl address then extractPdfText (pdfjs_failure w) (pdf_reply w)
                     else None)
      in if truthy pdfText then extracted_text (or_empty pdfText) ''pdf'' n
         else direct_page w n backendResult)"

definition fetchDocumentContent :: "world \<Rightarrow> string option \<Rightarrow> int option \<Rightarrow> extraction attempt" where
  \<comment> \<open>the last argument is \<open>options.maxLength\<close>; \<open>options.timeout\<close> decides which requests
      are aborted, which the world records\<close>
  "fetchDocumentContent w address maxLength =
     (if \<not> truthy address then Returns (Failed ''No URL provided'')
      else (let backendResult = fetchViaBackend (backend_reply w)
            in case get_field backendResult ''success'' of
                 Throws e \<Rightarrow> Throws e
               | Returns success \<Rightarrow>
                   if truthy_json success then
                     (case js_slice (field backendResult ''content'') (max_length maxLength) of
                        Throws e \<Rightarrow> Throws e
                      | Returns part \<Rightarrow>
                          Returns (Extracted part (field backendResult ''type'')
                            (max_length maxLength
                               < int (js_length (case field backendResult ''content'' of
                                                   Some c \<Rightarrow> c | None \<Rightarrow> JNull)))
                            (field backendResult ''originalLength'') Backend))
                   else Returns (direct w address (max_length maxLength) backendResult)))"


section \<open>buildRelatedDocumentsContext\<close>

record doc_info =
  index :: nat
  info_title :: "string option"
  info_url :: "string option"
  info_date :: "string option"
  info_relationship :: relationship
  references :: "string list"
  info_content :: "json option"    \<comment> \<open>\<open>docInfo.content\<close>, set after a successful fetch\<close>
  info_contentType :: "json option"

record related_context =
  context_text :: string    \<comment> \<open>the field \<open>context\<close>\<close>
  documents :: "doc_info list"

fun relationship_name :: "relationship \<Rightarrow> string" where
  "relationship_name SameRegulation = ''same-regulation''"
| "relationship_name References = ''references''"
| "relationship_name ReferencedBy = ''referenced-by''"
| "relationship_name Amendment = ''amendment''"
| "relationship_name Related = ''related''"

fun js_string :: "json \<Rightarrow> string" where
  \<comment> \<open>a JSON value inside a template literal; \<open>null\<close> inside an array prints as nothing\<close>
  "js_string JNull = ''null''"
| "js_string (JBool b) = (if b then ''true'' else ''false'')"
| "js_string (JNum n) = (if n < 0 then ''-'' @ show_nat (nat (- n)) else show_nat (nat n))"
| "js_string (JStr s) = s"
| "js_string (JArr xs) = join '','' (map (\<lambda>x. if x = JNull then [] else js_string x) xs)"
| "js_string (JObj kvs) = ''[object Object]''"

definition related_entry ::
  "(string \<Rightarrow> world) \<Rightarrow> bool \<Rightarrow> int \<Rightarrow> nat \<Rightarrow> scored \<Rightarrow> (doc_info \<times> string) attempt" where
  \<comment> \<open>one pass of the loop, for the related document at index \<open>i\<close>: what is pushed onto
      \<open>documents\<close> and onto \<open>contextParts\<close>. The first argument gives the world that
      answers the requests for a URL.\<close>
  "related_entry worlds fetchContent maxContentPerDoc i related =
     (let d = item related;
          refs = extractLegalReferences (template (title d) @ '' '' @ or_empty (summary d));
          docInfo = \<lparr>index = i + 1, info_title = title d, info_url = url d,
                     info_date = js_or (added d) (date d),
                     info_relationship = relationship related, references = refs,
                     info_content = None, info_contentType = None\<rparr>;
          contextEntry =
            ''[Related Doc '' @ show_nat (i + 1) @ ''] (''
              @ relationship_name (relationship related) @ '')'' @ nl
            @ ''Title: '' @ template (title d) @ nl
            @ ''Date: ''
              @ (if truthy (js_or (added d) (date d)) then or_empty (js_or (added d) (date d))
                 else ''Unknown'') @ nl
            @ ''URL: '' @ template (url d) @ nl
            @ ''Summary: '' @ slice0 (or_empty (summary d)) 500
      in if fetchContent \<and> truthy (url d) then
           (case fetchDocumentContent (worlds (or_empty (url d))) (url d) (Some maxContentPerDoc) of
              Throws e \<Rightarrow> Throws e
            | Returns (Failed msg) \<Rightarrow> Returns (docInfo, contextEntry)
            | Returns (Extracted c ty tr ol src) \<Rightarrow>
                (case js_slice (Some c) maxContentPerDoc of
                   Throws e \<Rightarrow> Throws e
                 | Returns part \<Rightarrow>
                     Returns (docInfo\<lparr>info_content := Some c, info_contentType := ty\<rparr>,
                              contextEntry @ nl @ nl @ ''[Full Content]'' @ nl @ js_string part)))
         else Returns (docInfo, contextEntry))"

fun related_entries ::
  "(string \<Rightarrow> world) \<Rightarrow> bool \<Rightarrow> int \<Rightarrow> nat \<Rightarrow> scored list \<Rightarrow> (doc_info \<times> string) list attempt" where
  \<comment> \<open>the loop from index \<open>i\<close> on; an exception in one pass ends it\<close>
  "related_entries worlds fetchContent maxContentPerDoc i [] = Returns []"
| "related_entries worlds fetchContent maxContentPerDoc i (r # rs) =
     (case related_entry worlds fetchContent maxContentPerDoc i r of
        Throws e \<Rightarrow> Throws e
      | Returns entry \<Rightarrow>
          (case related_entries worlds fetchContent maxContentPerDoc (Suc i) rs of
             Throws e \<Rightarrow> Throws e
           | Returns entries \<Rightarrow> Returns (entry # entries)))"

definition buildRelatedDocumentsContext ::
  "(string \<Rightarrow> world) \<Rightarrow> scored list option \<Rightarrow> bool option \<Rightarrow> int option
     \<Rightarrow> related_context attempt" where
  \<comment> \<open>the last two arguments are \<open>options.fetchContent\<close> and \<open>options.maxContentPerDoc\<close>\<close>
  "buildRelatedDocumentsContext worlds relatedDocs fetchContent maxContentPerDoc =
     (case relatedDocs of
        None \<Rightarrow> Returns \<lparr>context_text = [], documents = []\<rparr>
      | Some docs \<Rightarrow>
          if docs = [] then Returns \<lparr>context_text = [], documents = []\<rparr>
          else (case related_entries worlds
                       (case fetchContent of None \<Rightarrow> False | Some b \<Rightarrow> b)
                       (case maxContentPerDoc of None \<Rightarrow> 5000 | Some n \<Rightarrow> n) 0 docs of
                  Throws e \<Rightarrow> Throws e
                | Returns entries \<Rightarrow>
                    Returns \<lparr>context_text = join (nl @ nl @ ''---'' @ nl @ nl) (map snd entries),
                             documents = map fst entries\<rparr>))"


section \<open>Predicates on patterns\<close>

text \<open>
  Three properties of a pattern that the proofs below use: the characters it can read,
  what its capture group can hold, and whether every match of it reads at least one
  character.
\<close>

primrec only_reads :: "bool \<Rightarrow> (char \<Rightarrow> bool) \<Rightarrow> rx \<Rightarrow> bool" where
  "only_reads ic P Eps = True"
| "only_reads ic P (Atom cs) = (\<forall>c. list_ex (in_cls ic c) cs \<longrightarrow> P c)"
| "only_reads ic P (NotAtom cs) = (\<forall>c. \<not> list_ex (in_cls ic c) cs \<longrightarrow> P c)"
| "only_reads ic P (Seq a b) = (only_reads ic P a \<and> only_reads ic P b)"
| "only_reads ic P (Alt a b) = (only_reads ic P a \<and> only_reads ic P b)"
| "only_reads ic P (Opt a) = only_reads ic P a"
| "only_reads ic P (Star a) = only_reads ic P a"
| "only_reads ic P (Plus a) = only_reads ic P a"
| "only_reads ic P (LazyStar a) = only_reads ic P a"
| "only_reads ic P (Times n a) = only_reads ic P a"
| "only_reads ic P (Group a) = only_reads ic P a"

definition reads :: "(char \<Rightarrow> bool) \<Rightarrow> (mstate \<Rightarrow> mstate list) \<Rightarrow> bool" where
  "reads P f = (\<forall>st st'. st' \<in> set (f st) \<longrightarrow> (\<exists>u. fst st = u @ fst st' \<and> list_all P u))"

primrec captures :: "bool \<Rightarrow> (char \<Rightarrow> bool) \<Rightarrow> rx \<Rightarrow> bool" where
  "captures ic P Eps = False"
| "captures ic P (Atom cs) = False"
| "captures ic P (NotAtom cs) = False"
| "captures ic P (Seq a b) = captures ic P b"
| "captures ic P (Alt a b) = False"
| "captures ic P (Opt a) = False"
| "captures ic P (Star a) = False"
| "captures ic P (Plus a) = False"
| "captures ic P (LazyStar a) = False"
| "captures ic P (Times n a) = False"
| "captures ic P (Group a) = only_reads ic P a"

definition number_char :: "char \<Rightarrow> bool" where
  "number_char c = (is_digit c \<or> c = CHR ''/'')"

definition numbered :: "string \<Rightarrow> string \<Rightarrow> bool" where
  "numbered kind x = (\<exists>u. x = kind @ u \<and> list_all number_char u)"

primrec nonempty :: "rx \<Rightarrow> bool" where
  "nonempty Eps = False"
| "nonempty (Atom cs) = True"
| "nonempty (NotAtom cs) = True"
| "nonempty (Seq a b) = (nonempty a \<or> nonempty b)"
| "nonempty (Alt a b) = (nonempty a \<and> nonempty b)"
| "nonempty (Opt a) = False"
| "nonempty (Star a) = False"
| "nonempty (Plus a) = nonempty a"
| "nonempty (LazyStar a) = False"
| "nonempty (Times n a) = False"
| "nonempty (Group a) = nonempty a"


section \<open>Example documents\<close>

definition clock0 :: clock where
  "clock0 = \<lparr>now = 0, getTime = (\<lambda>s. None)\<rparr>"

definition plain_doc :: "string \<Rightarrow> string \<Rightarrow> string option \<Rightarrow> string list \<Rightarrow> doc" where
  \<comment> \<open>a document with an id, a title, perhaps a URL, and categories\<close>
  "plain_doc i t u cs =
     \<lparr>item_id = Some i, title = Some t, url = u, summary = None, added = None, date = None,
      categories = Some cs, tags = None\<rparr>"

definition doc_mica :: doc where
  "doc_mica = plain_doc ''a'' ''Crypto rules'' (Some ''https://e/a'') [''finance'', ''crypto'', ''markets'']"

definition doc_esma :: doc where
  "doc_esma = plain_doc ''b'' ''ESMA note'' (Some ''https://e/b'') [''finance'', ''crypto'', ''markets'']"

definition doc_eba :: doc where
  "doc_eba = plain_doc ''c'' ''EBA note'' (Some ''https://e/c'') [''finance'', ''crypto'', ''markets'']"

definition doc_twin :: doc where
  \<comment> \<open>another document, at another URL, with the id of \<open>doc_mica\<close>\<close>
  "doc_twin = plain_doc ''a'' ''Ledger note'' (Some ''https://e/z'') [''finance'', ''crypto'', ''markets'']"

definition doc_mifid :: doc where
  "doc_mifid = plain_doc ''1'' ''Directive 2014/65 32014L0065'' (Some ''https://e/1'') []"

definition doc_mifid_amending :: doc where
  "doc_mifid_amending =
     plain_doc ''2'' ''Amending Directive 2014/65 32014L0065(01)'' (Some ''https://e/2'') []"

definition doc_act :: doc where
  "doc_act = plain_doc ''3'' ''CELEX:32024R1234'' (Some ''https://e/3'') []"

definition doc_act_corrected :: doc where
  "doc_act_corrected = plain_doc ''4'' ''32024R1234(01)'' (Some ''https://e/4'') []"

definition long_paragraph :: string where
  \<comment> \<open>a paragraph of more than 200 characters\<close>
  "long_paragraph =
     ''This Regulation lays down uniform rules for the placing on the market of high-risk systems, ''
     @ ''and it applies to providers established in the Union as well as to providers established in ''
     @ ''a third country, from the date of its entry into force.''"

definition network_error :: exn where
  "network_error = Exn ''TypeError'' ''Failed to fetch''"

definition empty_browser :: browser where
  "empty_browser = \<lparr>parseFromString = (\<lambda>html. Element ''html'' [] []), innerHTML = (\<lambda>el. [])\<rparr>"

definition backend_answers :: "json \<Rightarrow> world" where
  \<comment> \<open>the backend server answers with status 200 and this JSON value\<close>
  "backend_answers data =
     \<lparr>backend_reply = Returns \<lparr>backend_ok = True, backend_status = 200,
                                backend_json = Returns data\<rparr>,
      pdfjs_failure = None, pdf_reply = Throws network_error,
      page_reply = Throws network_error, dom = empty_browser\<rparr>"

definition article_browser :: browser where
  \<comment> \<open>a browser that parses every page into one article with a heading and a long
      paragraph\<close>
  "article_browser =
     \<lparr>parseFromString = (\<lambda>html. Element ''html'' []
        [Element ''head'' [] [],
         Element ''body'' [] [Element ''article'' []
           [Element ''h1'' [] [Text ''Scope''], Element ''p'' [] [Text long_paragraph]]]]),
      innerHTML = (\<lambda>el. [])\<rparr>"

definition backend_down :: world where
  \<comment> \<open>no backend server; the page itself answers with an HTML document\<close>
  "backend_down =
     \<lparr>backend_reply = Throws network_error,
      pdfjs_failure = None, pdf_reply = Throws network_error,
      page_reply = Returns \<lparr>page_ok = True, page_status = 200,
         page_content_type = Some ''text/html; charset=utf-8'', page_buffer = None,
         page_document = Throws network_error, page_text = Returns ''<html></html>''\<rparr>,
      dom = article_browser\<rparr>"


section \<open>Properties of the matcher\<close>

lemma readsD: "reads P f \<Longrightarrow> st' \<in> set (f st) \<Longrightarrow> \<exists>u. fst st = u @ fst st' \<and> list_all P u"
  unfolding reads_def by blast

lemma readsI:
  "(\<And>st st'. st' \<in> set (f st) \<Longrightarrow> \<exists>u. fst st = u @ fst st' \<and> list_all P u) \<Longrightarrow> reads P f"
  unfolding reads_def by blast

lemma reads_refl: "\<exists>u. fst st = u @ fst st \<and> list_all P u"
  by (rule exI[of _ "[]"]) simp

lemma reads_exactly: "reads P f \<Longrightarrow> reads P (exactly n f)"
proof (induction n)
  case 0
  then show ?case by (simp add: reads_def)
next
  case (Suc n)
  show ?case unfolding reads_def
  proof (intro allI impI)
    fix st st' assume "st' \<in> set (exactly (Suc n) f st)"
    then obtain m where m: "m \<in> set (f st)" and s: "st' \<in> set (exactly n f m)" by auto
    from readsD[OF Suc.prems m] obtain u where u: "fst st = u @ fst m" "list_all P u" by blast
    from readsD[OF Suc.IH[OF Suc.prems] s] obtain v where v: "fst m = v @ fst st'" "list_all P v" by blast
    from u v have "fst st = (u @ v) @ fst st' \<and> list_all P (u @ v)" by simp
    then show "\<exists>u. fst st = u @ fst st' \<and> list_all P u" by blast
  qed
qed

lemma reads_greedy: "reads P f \<Longrightarrow> reads P (greedy n f)"
proof (induction n)
  case 0
  then show ?case by (simp add: reads_def)
next
  case (Suc n)
  show ?case unfolding reads_def
  proof (intro allI impI)
    fix st st' assume a: "st' \<in> set (greedy (Suc n) f st)"
    show "\<exists>u. fst st = u @ fst st' \<and> list_all P u"
    proof (cases "st' = st")
      case True
      then have "fst st = [] @ fst st' \<and> list_all P []" by simp
      then show ?thesis by blast
    next
      case False
      with a obtain m where m: "m \<in> set (f st)" and s: "st' \<in> set (greedy n f m)" by auto
      from readsD[OF Suc.prems m] obtain u where u: "fst st = u @ fst m" "list_all P u" by blast
      from readsD[OF Suc.IH[OF Suc.prems] s] obtain v where v: "fst m = v @ fst st'" "list_all P v" by blast
      from u v have "fst st = (u @ v) @ fst st' \<and> list_all P (u @ v)" by simp
      then show ?thesis by blast
    qed
  qed
qed

lemma reads_lazy: "reads P f \<Longrightarrow> reads P (lazy n f)"
proof (induction n)
  case 0
  then show ?case by (simp add: reads_def)
next
  case (Suc n)
  show ?case unfolding reads_def
  proof (intro allI impI)
    fix st st' assume a: "st' \<in> set (lazy (Suc n) f st)"
    show "\<exists>u. fst st = u @ fst st' \<and> list_all P u"
    proof (cases "st' = st")
      case True
      then have "fst st = [] @ fst st' \<and> list_all P []" by simp
      then show ?thesis by blast
    next
      case False
      with a obtain m where m: "m \<in> set (f st)" and s: "st' \<in> set (lazy n f m)" by auto
      from readsD[OF Suc.prems m] obtain u where u: "fst st = u @ fst m" "list_all P u" by blast
      from readsD[OF Suc.IH[OF Suc.prems] s] obtain v where v: "fst m = v @ fst st'" "list_all P v" by blast
      from u v have "fst st = (u @ v) @ fst st' \<and> list_all P (u @ v)" by simp
      then show ?thesis by blast
    qed
  qed
qed

lemma reads_seq:
  assumes "reads P f" "reads P g"
  shows "reads P (\<lambda>st. concat (map g (f st)))"
  unfolding reads_def
proof (intro allI impI)
  fix st st' assume "st' \<in> set (concat (map g (f st)))"
  then obtain m where m: "m \<in> set (f st)" and s: "st' \<in> set (g m)" by auto
  from readsD[OF assms(1) m] obtain u where u: "fst st = u @ fst m" "list_all P u" by blast
  from readsD[OF assms(2) s] obtain v where v: "fst m = v @ fst st'" "list_all P v" by blast
  from u v have "fst st = (u @ v) @ fst st' \<and> list_all P (u @ v)" by simp
  then show "\<exists>u. fst st = u @ fst st' \<and> list_all P u" by blast
qed

lemma reads_matches: "only_reads ic P r \<Longrightarrow> reads P (matches ic r)"
proof (induction r)
  case Eps
  show ?case by (simp add: reads_def)
next
  case (Atom cs)
  then show ?case by (auto simp: reads_def split: list.splits if_splits)
next
  case (NotAtom cs)
  then show ?case by (auto simp: reads_def split: list.splits if_splits)
next
  case (Seq a b)
  then show ?case using reads_seq[of P "matches ic a" "matches ic b"] by simp
next
  case (Alt a b)
  then have r: "reads P (matches ic a)" "reads P (matches ic b)" by simp_all
  show ?case
  proof (rule readsI)
    fix st st' assume "st' \<in> set (matches ic (Alt a b) st)"
    then have "st' \<in> set (matches ic a st) \<or> st' \<in> set (matches ic b st)" by simp
    then show "\<exists>u. fst st = u @ fst st' \<and> list_all P u"
      using readsD[OF r(1)] readsD[OF r(2)] by blast
  qed
next
  case (Opt a)
  then have r: "reads P (matches ic a)" by simp
  show ?case
  proof (rule readsI)
    fix st st' assume "st' \<in> set (matches ic (Opt a) st)"
    then have "st' \<in> set (matches ic a st) \<or> st' = st" by auto
    then show "\<exists>u. fst st = u @ fst st' \<and> list_all P u"
      using readsD[OF r] reads_refl by blast
  qed
next
  case (Star a)
  then have "reads P (matches ic a)" by simp
  then have "\<And>n. reads P (greedy n (matches ic a))" by (rule reads_greedy)
  then show ?case by (simp add: reads_def)
next
  case (Plus a)
  then have r: "reads P (matches ic a)" by simp
  then have g: "\<And>n. reads P (greedy n (matches ic a))" by (rule reads_greedy)
  show ?case unfolding reads_def
  proof (intro allI impI)
    fix st st' assume "st' \<in> set (matches ic (Plus a) st)"
    then obtain m where m: "m \<in> set (matches ic a st)"
      and s: "st' \<in> set (greedy (length (fst m)) (matches ic a) m)" by auto
    from readsD[OF r m] obtain u where u: "fst st = u @ fst m" "list_all P u" by blast
    from readsD[OF g s] obtain v where v: "fst m = v @ fst st'" "list_all P v" by blast
    from u v have "fst st = (u @ v) @ fst st' \<and> list_all P (u @ v)" by simp
    then show "\<exists>u. fst st = u @ fst st' \<and> list_all P u" by blast
  qed
next
  case (LazyStar a)
  then have "reads P (matches ic a)" by simp
  then have "\<And>n. reads P (lazy n (matches ic a))" by (rule reads_lazy)
  then show ?case by (simp add: reads_def)
next
  case (Times n a)
  then have "reads P (matches ic a)" by simp
  then have "reads P (exactly n (matches ic a))" by (rule reads_exactly)
  then show ?case by (simp add: reads_def)
next
  case (Group a)
  then have r: "reads P (matches ic a)" by simp
  show ?case
  proof (rule readsI)
    fix st st' assume "st' \<in> set (matches ic (Group a) st)"
    then obtain m where "m \<in> set (matches ic a st)" and "fst st' = fst m" by auto
    then show "\<exists>u. fst st = u @ fst st' \<and> list_all P u"
      using readsD[OF r] by simp
  qed
qed

lemma captures_matches:
  "captures ic P r \<Longrightarrow> st' \<in> set (matches ic r st) \<Longrightarrow> \<exists>u. snd st' = Some u \<and> list_all P u"
proof (induction r arbitrary: st st')
  case (Seq a b)
  from Seq.prems(2) obtain m where "st' \<in> set (matches ic b m)" by auto
  with Seq.IH(2) Seq.prems(1) show ?case by simp
next
  case (Group a)
  then have r: "reads P (matches ic a)" by (simp add: reads_matches)
  from Group.prems(2) obtain m where m: "m \<in> set (matches ic a st)"
    and c: "snd st' = Some (take (length (fst st) - length (fst m)) (fst st))" by auto
  from readsD[OF r m] obtain u where "fst st = u @ fst m" "list_all P u" by blast
  with c show ?case by simp
qed simp_all

declare search.simps [simp del]
declare exec_all.simps [simp del]

lemma captures_search:
  "captures ic P r \<Longrightarrow> search ic r pre s = Some m \<Longrightarrow> \<exists>u. group1 m = Some u \<and> list_all P u"
proof (induction ic r pre s rule: search.induct)
  case (1 ic r pre s)
  note unfold = search.simps[of ic r pre s]
  show ?case
  proof (cases "matches ic r (s, None)")
    case Nil
    show ?thesis
    proof (cases s)
      case Nil': Nil
      with Nil "1.prems"(2) unfold show ?thesis by simp
    next
      case (Cons c cs)
      with Nil "1.prems"(2) unfold have "search ic r (c # pre) cs = Some m" by simp
      from "1.IH"[OF Nil Cons "1.prems"(1) this] show ?thesis .
    qed
  next
    case (Cons st sts)
    then have "st \<in> set (matches ic r (s, None))" by simp
    from captures_matches[OF "1.prems"(1) this] Cons "1.prems"(2) unfold show ?thesis
      by auto
  qed
qed

lemma captures_exec_all:
  "captures ic P r \<Longrightarrow> g \<in> set (exec_all ic r s) \<Longrightarrow> \<exists>u. g = Some u \<and> list_all P u"
proof (induction ic r s rule: exec_all.induct)
  case (1 ic r s)
  show ?case
  proof (cases "rx_match ic r s")
    case None
    with "1.prems" show ?thesis by (simp add: exec_all.simps[of ic r s])
  next
    case (Some m)
    from captures_search[OF "1.prems"(1)] Some have g: "\<exists>u. group1 m = Some u \<and> list_all P u"
      by (simp add: rx_match_def)
    show ?thesis
    proof (cases "length (rest m) < length s")
      case True
      with Some "1.prems"(2) have "g = group1 m \<or> g \<in> set (exec_all ic r (rest m))"
        by (simp add: exec_all.simps[of ic r s])
      with g "1.IH"[OF Some True "1.prems"(1)] show ?thesis by blast
    next
      case False
      with Some "1.prems"(2) show ?thesis by (simp add: exec_all.simps[of ic r s])
    qed
  qed
qed

lemma code_char_of: "n < 256 \<Longrightarrow> code (char_of n) = n"
  by (simp add: code_def)

lemma ascii_upper_slash: "ascii_upper c = CHR ''/'' \<Longrightarrow> c = CHR ''/''"
proof (cases "is_lower c")
  case True
  assume "ascii_upper c = CHR ''/''"
  with True have "code (char_of (code c - 32)) = code (CHR ''/'')" by (simp add: ascii_upper_def)
  moreover from True have "code c - 32 < 256" unfolding is_lower_def by arith
  ultimately have "code c - 32 = code (CHR ''/'')" by (simp add: code_char_of)
  then have "code c - 32 = 47" by (simp add: code_def)
  with True show ?thesis unfolding is_lower_def by arith
next
  case False
  assume "ascii_upper c = CHR ''/''"
  with False show ?thesis by (simp add: ascii_upper_def)
qed

lemma in_cls_slash: "in_cls ic c (CChar (CHR ''/'')) \<Longrightarrow> number_char c"
proof -
  assume a: "in_cls ic c (CChar (CHR ''/''))"
  have "ascii_upper (CHR ''/'') = CHR ''/''"
    by (simp add: ascii_upper_def is_lower_def code_def)
  with a have "c = CHR ''/''" by (cases ic) (simp_all add: ascii_upper_slash)
  then show ?thesis by (simp add: number_char_def)
qed

lemma in_cls_digit: "in_cls ic c CDigit \<Longrightarrow> number_char c"
  by (simp add: number_char_def)

lemma only_reads_numbers:
  "only_reads True number_char (Alt year_number number_year)"
  "only_reads True number_char year_number"
  "only_reads True number_char number_year"
  using in_cls_slash in_cls_digit
  by (simp_all add: year_number_def number_year_def digit_def ch_def del: in_cls.simps)

lemma captures_patterns:
  "captures True number_char regulation_eu"
  "captures True number_char regulation_eu_year"
  "captures True number_char eu_ec_number"
  "captures True number_char directive_eu"
  "captures True number_char directive_year"
  by (simp_all add: regulation_eu_def regulation_eu_year_def eu_ec_number_def directive_eu_def
      directive_year_def only_reads_numbers)

lemma add_ref_set: "set (add_ref x refs) = insert x (set refs)"
  by (auto simp: add_ref_def)

lemma add_matches_set:
  assumes "captures True number_char p" and "x \<in> set (add_matches kind text p refs)"
  shows "x \<in> set refs \<or> numbered kind x"
proof -
  have "x \<in> set (fold (\<lambda>g acc. add_ref (kind @ template g) acc) gs refs) \<Longrightarrow>
        (\<forall>g\<in>set gs. \<exists>u. g = Some u \<and> list_all number_char u) \<Longrightarrow>
        x \<in> set refs \<or> numbered kind x" for gs
  proof (induction gs arbitrary: refs)
    case Nil
    then show ?case by simp
  next
    case (Cons g gs)
    from Cons.prems(2) obtain u where u: "g = Some u" "list_all number_char u" by auto
    from Cons.prems have "x \<in> set (add_ref (kind @ template g) refs) \<or> numbered kind x"
      by (intro Cons.IH) simp_all
    with u show ?case by (auto simp: add_ref_set template_def numbered_def)
  qed
  with assms captures_exec_all[OF assms(1)] show ?thesis
    unfolding add_matches_def by blast
qed

lemma pattern_references_numbered:
  assumes "x \<in> set (pattern_references text)"
  shows "numbered ''Regulation '' x \<or> numbered ''Directive '' x"
proof -
  let ?r1 = "add_matches ''Regulation '' text regulation_eu []"
  let ?r2 = "add_matches ''Regulation '' text regulation_eu_year ?r1"
  let ?r3 = "add_matches ''Regulation '' text eu_ec_number ?r2"
  let ?d1 = "add_matches ''Directive '' text directive_eu ?r3"
  let ?d2 = "add_matches ''Directive '' text directive_year ?d1"
  have eq: "pattern_references text = ?d2"
    by (simp add: pattern_references_def regPatterns_def dirPatterns_def)
  have 1: "y \<in> set ?r1 \<Longrightarrow> numbered ''Regulation '' y" for y
    using add_matches_set[OF captures_patterns(1)] by fastforce
  have 2: "y \<in> set ?r2 \<Longrightarrow> numbered ''Regulation '' y" for y
    using add_matches_set[OF captures_patterns(2)] 1 by blast
  have 3: "y \<in> set ?r3 \<Longrightarrow> numbered ''Regulation '' y" for y
    using add_matches_set[OF captures_patterns(3)] 2 by blast
  have 4: "y \<in> set ?d1 \<Longrightarrow> numbered ''Regulation '' y \<or> numbered ''Directive '' y" for y
    using add_matches_set[OF captures_patterns(4)] 3 by blast
  have 5: "y \<in> set ?d2 \<Longrightarrow> numbered ''Regulation '' y \<or> numbered ''Directive '' y" for y
    using add_matches_set[OF captures_patterns(5)] 4 by blast
  from assms eq 5 show ?thesis by simp
qed

lemma expansion_not_numbered:
  assumes "e \<in> snd ` set acronyms"
  shows "\<not> numbered ''Regulation '' e \<and> \<not> numbered ''Directive '' e"
proof -
  have "\<not> number_char (CHR ''('')" "\<not> number_char (CHR ''E'')"
    by (simp_all add: number_char_def is_digit_def code_def)
  with assms show ?thesis
    by (auto simp: acronyms_def numbered_def)
qed

lemma startsWith_set: "startsWith s t \<Longrightarrow> set t \<subseteq> set s"
  by (induction t arbitrary: s) (auto split: list.splits)

lemma str_includes_set: "str_includes s t \<Longrightarrow> set t \<subseteq> set s"
proof (induction s)
  case Nil
  then show ?case by simp
next
  case (Cons c cs)
  then show ?case using startsWith_set[of "c # cs" t] by auto
qed

lemma lower_char_not_upper: "\<not> is_upper (lower_char c)"
proof (cases "is_upper c \<or> (192 \<le> code c \<and> code c \<le> 222 \<and> code c \<noteq> 215)")
  case True
  then have b: "code c + 32 < 256" unfolding is_upper_def by arith
  from True have "lower_char c = char_of (code c + 32)" by (simp add: lower_char_def)
  with b have "code (lower_char c) = code c + 32" by (simp add: code_char_of)
  with True show ?thesis unfolding is_upper_def by arith
next
  case False
  then have "lower_char c = c" unfolding lower_char_def by (rule if_not_P)
  with False show ?thesis by simp
qed

lemma toLowerCase_no_upper: "c \<in> set (toLowerCase s) \<Longrightarrow> \<not> is_upper c"
  by (auto simp: toLowerCase_def lower_char_not_upper)

lemma acronym_has_upper: "entry \<in> set acronyms \<Longrightarrow> \<exists>c\<in>set (fst entry). is_upper c"
  by (auto simp: acronyms_def is_upper_def code_def)

lemma acronym_not_in_lower: "entry \<in> set acronyms \<Longrightarrow> \<not> str_includes (toLowerCase s) (fst entry)"
  using acronym_has_upper[of entry] str_includes_set[of "toLowerCase s" "fst entry"]
    toLowerCase_no_upper[of _ s] by blast

lemma add_acronyms_lower: "add_acronyms (toLowerCase s) refs = refs"
proof -
  have "\<forall>entry\<in>set es. \<not> str_includes t (fst entry) \<Longrightarrow>
        fold (\<lambda>entry acc. if str_includes t (fst entry) then add_ref (snd entry) acc else acc) es refs = refs"
    for es t
    by (induction es arbitrary: refs) simp_all
  then show ?thesis unfolding add_acronyms_def using acronym_not_in_lower by blast
qed

lemma add_acronyms_mono: "x \<in> set refs \<Longrightarrow> x \<in> set (add_acronyms text refs)"
proof -
  have "x \<in> set refs \<Longrightarrow>
        x \<in> set (fold (\<lambda>entry acc. if str_includes text (fst entry) then add_ref (snd entry) acc else acc) es refs)"
    for es
    by (induction es arbitrary: refs) (simp_all add: add_ref_set)
  then show "x \<in> set refs \<Longrightarrow> x \<in> set (add_acronyms text refs)" unfolding add_acronyms_def .
qed

lemma add_acronyms_hit:
  assumes "entry \<in> set acronyms" and "str_includes text (fst entry)"
  shows "snd entry \<in> set (add_acronyms text refs)"
proof -
  have "entry \<in> set es \<Longrightarrow>
        snd entry \<in> set (fold (\<lambda>e acc. if str_includes text (fst e) then add_ref (snd e) acc else acc) es refs)"
    for es
  proof (induction es arbitrary: refs)
    case Nil
    then show ?case by simp
  next
    case (Cons e es)
    have mono: "x \<in> set r \<Longrightarrow>
        x \<in> set (fold (\<lambda>e acc. if str_includes text (fst e) then add_ref (snd e) acc else acc) es r)"
      for x r
      by (induction es arbitrary: r) (simp_all add: add_ref_set)
    show ?case
    proof (cases "entry = e")
      case True
      with assms(2) show ?thesis by (simp add: mono add_ref_set)
    next
      case False
      with Cons show ?thesis by simp
    qed
  qed
  with assms(1) show ?thesis unfolding add_acronyms_def by blast
qed

lemma only_reads_any: "only_reads ic (\<lambda>c. True) r"
  by (induction r) simp_all

lemma matches_le: "st' \<in> set (matches ic r st) \<Longrightarrow> length (fst st') \<le> length (fst st)"
  using readsD[OF reads_matches[OF only_reads_any], of st' ic r st] by auto

lemma greedy_le:
  "st' \<in> set (greedy n (matches ic r) st) \<Longrightarrow> length (fst st') \<le> length (fst st)"
  using readsD[OF reads_greedy[OF reads_matches[OF only_reads_any]], of st' n ic r st] by auto

lemma nonempty_matches:
  "nonempty r \<Longrightarrow> st' \<in> set (matches ic r st) \<Longrightarrow> length (fst st') < length (fst st)"
proof (induction r arbitrary: st st')
  case (Atom cs)
  then show ?case by (cases "fst st") (auto split: if_splits)
next
  case (NotAtom cs)
  then show ?case by (cases "fst st") (auto split: if_splits)
next
  case (Seq a b)
  from Seq.prems(2) obtain m where m: "m \<in> set (matches ic a st)" "st' \<in> set (matches ic b m)"
    by auto
  from Seq.prems(1) have "nonempty a \<or> nonempty b" by simp
  then show ?case
  proof
    assume "nonempty a"
    with Seq.IH(1) m(1) have "length (fst m) < length (fst st)" by blast
    with matches_le[OF m(2)] show ?thesis by simp
  next
    assume "nonempty b"
    with Seq.IH(2) m(2) have "length (fst st') < length (fst m)" by blast
    with matches_le[OF m(1)] show ?thesis by simp
  qed
next
  case (Alt a b)
  from Alt.prems(2) have "st' \<in> set (matches ic a st) \<or> st' \<in> set (matches ic b st)" by simp
  moreover from Alt.prems(1) have "nonempty a" "nonempty b" by simp_all
  ultimately show ?case using Alt.IH(1)[of st' st] Alt.IH(2)[of st' st] by blast
next
  case (Plus a)
  from Plus.prems(2) obtain m where m: "m \<in> set (matches ic a st)"
    "st' \<in> set (greedy (length (fst m)) (matches ic a) m)" by auto
  from Plus.IH Plus.prems(1) m(1) have "length (fst m) < length (fst st)" by simp
  with greedy_le[OF m(2)] show ?case by simp
next
  case (Group a)
  from Group.prems(2) obtain m where "m \<in> set (matches ic a st)" "fst st' = fst m" by auto
  with Group.IH Group.prems(1) show ?case by simp
qed simp_all

lemma nonempty_search:
  "nonempty r \<Longrightarrow> search ic r pre s = Some m \<Longrightarrow> length (rest m) < length s"
proof (induction ic r pre s rule: search.induct)
  case (1 ic r pre s)
  note unfold = search.simps[of ic r pre s]
  show ?case
  proof (cases "matches ic r (s, None)")
    case Nil
    show ?thesis
    proof (cases s)
      case Nil': Nil
      with Nil "1.prems"(2) unfold show ?thesis by simp
    next
      case (Cons c cs)
      with Nil "1.prems"(2) unfold have "search ic r (c # pre) cs = Some m" by simp
      from "1.IH"[OF Nil Cons "1.prems"(1) this] Cons show ?thesis by simp
    qed
  next
    case (Cons st sts)
    then have "st \<in> set (matches ic r (s, None))" by simp
    from nonempty_matches[OF "1.prems"(1) this] Cons "1.prems"(2) unfold show ?thesis
      by auto
  qed
qed

lemma exec_all_progress:
  assumes "nonempty r"
  shows "exec_all ic r s =
     (case rx_match ic r s of None \<Rightarrow> [] | Some m \<Rightarrow> group1 m # exec_all ic r (rest m))"
proof (cases "rx_match ic r s")
  case None
  then show ?thesis by (simp add: exec_all.simps[of ic r s])
next
  case (Some m)
  with nonempty_search[OF assms] have "length (rest m) < length s" by (simp add: rx_match_def)
  with Some show ?thesis by (simp add: exec_all.simps[of ic r s])
qed

lemma nonempty_patterns:
  "nonempty regulation_eu" "nonempty regulation_eu_year" "nonempty eu_ec_number"
  "nonempty directive_eu" "nonempty directive_year"
  by (simp_all add: regulation_eu_def regulation_eu_year_def eu_ec_number_def directive_eu_def
      directive_year_def lit_def)


section \<open>Properties of the scorer\<close>

lemma slice0_nonneg: "0 \<le> n \<Longrightarrow> slice0 xs n = take (nat n) xs"
  by (simp add: slice0_def)

lemma filter_take_prefix: "\<exists>ys. filter P xs = filter P (take n xs) @ ys"
proof -
  have "filter P xs = filter P (take n xs) @ filter P (drop n xs)"
    by (metis append_take_drop_id filter_append)
  then show ?thesis by blast
qed

lemma candidate_score: "m \<in> set (candidate c t d) \<Longrightarrow> 10 < score m \<and> item m = d \<and> \<not> is_target t d"
  by (auto simp: candidate_def Let_def split: if_splits)

lemma scored_candidates_score: "m \<in> set (scored_candidates c t xs) \<Longrightarrow> 10 < score m"
  by (auto simp: scored_candidates_def dest: candidate_score)

lemma scored_candidates_items:
  "map item (scored_candidates c t xs) =
     filter (\<lambda>d. \<not> is_target t d \<and> 10 < fst (score_candidate c t d)) xs"
  by (induction xs) (auto simp: scored_candidates_def candidate_def Let_def)

lemma sorted_falling:
  "sorted_wrt (\<lambda>a b. score b \<le> score a) (sort_key (\<lambda>m. - score m) ms)"
proof -
  have "sorted (map (\<lambda>m. - score m) (sort_key (\<lambda>m. - score m) ms))" by (rule sorted_sort_key)
  then show ?thesis by (simp add: sorted_map)
qed

lemma sorted_wrt_take': "sorted_wrt R xs \<Longrightarrow> sorted_wrt R (take n xs)"
  by (metis append_take_drop_id sorted_wrt_append)

lemma recency_nonneg: "0 \<le> recency c d"
  by (simp add: recency_def Let_def split: option.splits)

lemma score_candidate_same:
  assumes "same_base (doc_celex t) (doc_celex d)"
  shows "50 \<le> fst (score_candidate c t d)"
    and "snd (score_candidate c t d) =
      Some (if amends d (extractLegalReferences (doc_text d)) (doc_text t)
            then Amendment else SameRegulation)"
  using assms recency_nonneg[of c d]
  by (simp_all add: score_candidate_def Let_def or_rel_def)

lemma candidate_in_scored:
  "d \<in> set xs \<Longrightarrow> m \<in> set (candidate c t d) \<Longrightarrow> m \<in> set (scored_candidates c t xs)"
  by (auto simp: scored_candidates_def)

lemma slice0_all: "int (length xs) \<le> n \<Longrightarrow> slice0 xs n = xs"
  by (simp add: slice0_def)


section \<open>Properties of the section extractor\<close>

lemma concat_map_filter:
  "concat (map f (filter P xs)) = concat (map (\<lambda>x. if P x then f x else []) xs)"
  by (induction xs) simp_all

lemma filter_heading_section [simp]:
  "filter is_heading (heading_section n) = heading_section n"
  "filter is_paragraph (heading_section n) = []"
  "filter is_list_item (heading_section n) = []"
  "filter is_table (heading_section n) = []"
  by (simp_all add: heading_section_def Let_def)

lemma filter_paragraph_section [simp]:
  "filter is_heading (paragraph_section n) = []"
  "filter is_paragraph (paragraph_section n) = paragraph_section n"
  "filter is_list_item (paragraph_section n) = []"
  "filter is_table (paragraph_section n) = []"
  by (simp_all add: paragraph_section_def Let_def)

lemma filter_item_section [simp]:
  "filter is_heading (item_section n) = []"
  "filter is_paragraph (item_section n) = []"
  "filter is_list_item (item_section n) = item_section n"
  "filter is_table (item_section n) = []"
  by (simp_all add: item_section_def Let_def)

lemma filter_table_section [simp]:
  "filter is_heading (table_section n) = []"
  "filter is_paragraph (table_section n) = []"
  "filter is_list_item (table_section n) = []"
  "filter is_table (table_section n) = table_section n"
  by (simp_all add: table_section_def Let_def)

lemma has_tag_exclusive:
  "has_tag heading_tags n \<Longrightarrow> \<not> has_tag [''p''] n \<and> \<not> has_tag [''li''] n \<and> \<not> has_tag [''table''] n"
  "has_tag [''p''] n \<Longrightarrow> \<not> has_tag [''li''] n \<and> \<not> has_tag [''table''] n"
  "has_tag [''li''] n \<Longrightarrow> \<not> has_tag [''table''] n"
  by (auto simp: has_tag_def heading_tags_def split: node.splits)

lemma filter_classify:
  "filter is_heading (classify n) = (if has_tag heading_tags n then heading_section n else [])"
  "filter is_paragraph (classify n) = (if has_tag [''p''] n then paragraph_section n else [])"
  "filter is_list_item (classify n) = (if has_tag [''li''] n then item_section n else [])"
  "filter is_table (classify n) = (if has_tag [''table''] n then table_section n else [])"
  using has_tag_exclusive[of n] by (auto simp: classify_def)

lemma filter_document_order:
  "filter is_heading (sections_in_document_order m)
     = concat (map heading_section (querySelectorAll heading_tags m))"
  "filter is_paragraph (sections_in_document_order m)
     = concat (map paragraph_section (querySelectorAll [''p''] m))"
  "filter is_list_item (sections_in_document_order m)
     = concat (map item_section (querySelectorAll [''li''] m))"
  "filter is_table (sections_in_document_order m)
     = concat (map table_section (querySelectorAll [''table''] m))"
  by (simp_all add: sections_in_document_order_def querySelectorAll_def filter_concat
      concat_map_filter filter_classify comp_def)

lemma paragraph_mem:
  "Paragraph t \<in> set (extractSections m) \<longleftrightarrow>
     (\<exists>e\<in>set (querySelectorAll [''p''] m). t = trim (textContent e) \<and> 20 < length t)"
  by (auto simp: extractSections_def heading_section_def paragraph_section_def
      item_section_def table_section_def Let_def split: if_splits)

lemma list_item_mem:
  "ListItem t \<in> set (extractSections m) \<longleftrightarrow>
     (\<exists>e\<in>set (querySelectorAll [''li''] m). t = trim (textContent e) \<and> 10 < length t)"
  by (auto simp: extractSections_def heading_section_def paragraph_section_def
      item_section_def table_section_def Let_def split: if_splits)

declare replace_all.simps [simp del]
declare show_nat.simps [simp del]

lemma replace_all_progress:
  assumes "nonempty r"
  shows "replace_all ic r rep s =
     (case rx_match ic r s of
        None \<Rightarrow> s
      | Some m \<Rightarrow> before m @ rep @ replace_all ic r rep (rest m))"
proof (cases "rx_match ic r s")
  case None
  then show ?thesis by (simp add: replace_all.simps[of ic r rep s])
next
  case (Some m)
  with nonempty_search[OF assms] have "length (rest m) < length s" by (simp add: rx_match_def)
  with Some show ?thesis by (simp add: replace_all.simps[of ic r rep s])
qed

lemma strip_steps_nonempty: "step \<in> set strip_steps \<Longrightarrow> nonempty (fst (snd step))"
  by (auto simp: strip_steps_def element_block_def html_comment_def any_tag_def lit_def ch_def
      space_def)

lemma extractSections_grouped:
  "extractSections m =
     filter is_heading (sections_in_document_order m)
     @ filter is_paragraph (sections_in_document_order m)
     @ filter is_list_item (sections_in_document_order m)
     @ filter is_table (sections_in_document_order m)"
  by (simp add: filter_document_order extractSections_def)


section \<open>Properties of the content fetcher\<close>

lemma slice0_length: "0 \<le> n \<Longrightarrow> int (length (slice0 xs n)) \<le> n"
  by (simp add: slice0_def)

lemma slice0_shorter: "0 \<le> n \<Longrightarrow> (length (slice0 xs n) < length xs) = (n < int (length xs))"
  by (auto simp: slice0_def)

lemma direct_catch_failed: "\<exists>msg. direct_catch b e = Failed msg"
  by (simp add: direct_catch_def)

lemma direct_page_shape:
  "(\<exists>msg. direct_page w n b = Failed msg) \<or> (\<exists>t k. direct_page w n b = extracted_text t k n)"
  using direct_catch_failed[of b]
  by (auto simp: direct_page_def split: attempt.splits option.splits)

lemma direct_shape:
  "(\<exists>msg. direct w u n b = Failed msg) \<or> (\<exists>t k. direct w u n b = extracted_text t k n)"
  using direct_page_shape[of w n b] by (auto simp: direct_def Let_def)

lemma extracted_text_facts:
  assumes "0 \<le> n" and "extracted_text t k n = Extracted c ty tr ol src"
  shows "src = Direct" and "c = JStr (slice0 t n)" and "ol = Some (JNum (int (length t)))"
    and "tr = (n < int (length t))" and "tr = (int (length (slice0 t n)) < int (length t))"
  using assms slice0_shorter[of n t] by (auto simp: extracted_text_def)

lemma js_slice_length:
  "0 \<le> n \<Longrightarrow> js_slice v n = Returns c \<Longrightarrow> int (js_length c) \<le> n"
  by (auto simp: js_slice_def js_length_def slice0_length split: option.splits json.splits)

lemma js_slice_some: "js_slice v n = Returns c \<Longrightarrow> \<exists>whole. v = Some whole"
  by (cases v) (simp_all add: js_slice_def)

lemma direct_channel_truncation:
  assumes "0 \<le> max_length mx"
    and "fetchDocumentContent w u mx = Returns (Extracted c ty tr ol Direct)"
  shows "\<exists>t. c = JStr (slice0 t (max_length mx))
           \<and> ol = Some (JNum (int (length t)))
           \<and> int (length (slice0 t (max_length mx))) \<le> max_length mx
           \<and> tr = (int (length (slice0 t (max_length mx))) < int (length t))
           \<and> tr = (max_length mx < int (length t))"
proof -
  let ?n = "max_length mx"
  let ?b = "fetchViaBackend (backend_reply w)"
  from assms(2) have d: "direct w u ?n ?b = Extracted c ty tr ol Direct"
    by (auto simp: fetchDocumentContent_def Let_def split: if_splits attempt.splits)
  with direct_shape[of w u ?n ?b] obtain t k where
    e: "extracted_text t k ?n = Extracted c ty tr ol Direct" by auto
  note f = extracted_text_facts[OF assms(1) e]
  from f slice0_length[OF assms(1), of t] show ?thesis by blast
qed


section \<open>Instrument identifiers and legal references\<close>

text \<open>
  C7: \<open>extractCelexId\<close> returns the first match in priority order: the pattern with the
  CELEX prefix, then the bare pattern of five digits, a letter and four digits with an
  optional suffix in parentheses, then the phrasing that names a regulation, directive
  or decision by number. Applied to \<open>CELEX:32024R1234\<close> and to \<open>32024R1234(01)\<close>, both
  results have the 9-character prefix \<open>32024R123\<close>.
\<close>

theorem extractCelexId_priority:
  "(\<forall>t m. t \<noteq> [] \<and> rx_match True celex_prefixed t = Some m
       \<longrightarrow> extractCelexId (Some t) = group1 m)
   \<and> (\<forall>t m. t \<noteq> [] \<and> rx_match True celex_prefixed t = None
         \<and> rx_match False celex_bare t = Some m
       \<longrightarrow> extractCelexId (Some t) = group1 m)
   \<and> (\<forall>t m. t \<noteq> [] \<and> rx_match True celex_prefixed t = None
         \<and> rx_match False celex_bare t = None \<and> rx_match True act_number t = Some m
       \<longrightarrow> extractCelexId (Some t) = group1 m)
   \<and> (\<forall>t. rx_match True celex_prefixed t = None
         \<and> rx_match False celex_bare t = None \<and> rx_match True act_number t = None
       \<longrightarrow> extractCelexId (Some t) = None)
   \<and> extractCelexId (Some ''CELEX:32024R1234'') = Some ''32024R1234''
   \<and> extractCelexId (Some ''32024R1234(01)'') = Some ''32024R1234(01)''
   \<and> slice0 ''32024R1234'' 9 = ''32024R123''
   \<and> slice0 ''32024R1234(01)'' 9 = ''32024R123''"
proof -
  have general: "extractCelexId (Some t) =
      (if t = [] then None
       else case rx_match True celex_prefixed t of
              Some m \<Rightarrow> group1 m
            | None \<Rightarrow> (case rx_match False celex_bare t of
                Some m \<Rightarrow> group1 m
              | None \<Rightarrow> (case rx_match True act_number t of
                  Some m \<Rightarrow> group1 m
                | None \<Rightarrow> None)))" for t
    by (simp add: extractCelexId_def celex_patterns_def split: option.splits)
  have examples: "extractCelexId (Some ''CELEX:32024R1234'') = Some ''32024R1234''
     \<and> extractCelexId (Some ''32024R1234(01)'') = Some ''32024R1234(01)''
     \<and> slice0 ''32024R1234'' 9 = ''32024R123''
     \<and> slice0 ''32024R1234(01)'' 9 = ''32024R123''"
    by code_simp
  from general examples show ?thesis by simp
qed

theorem extractCelexId_priority_witness:
  "rx_match True celex_prefixed ''see 32019L0790, CELEX: 32024R1234'' =
      Some \<lparr>before = ''see 32019L0790, '', rest = [], group1 = Some ''32024R1234''\<rparr>
   \<and> extractCelexId (Some ''see 32019L0790, CELEX: 32024R1234'') = Some ''32024R1234''
   \<and> rx_match True celex_prefixed ''32024R1234(01)'' = None
   \<and> rx_match False celex_bare ''32024R1234(01)'' =
      Some \<lparr>before = [], rest = [], group1 = Some ''32024R1234(01)''\<rparr>
   \<and> extractCelexId (Some ''32024R1234(01)'') = Some ''32024R1234(01)''
   \<and> rx_match True celex_prefixed ''Decision (EU) No 2024/1689'' = None
   \<and> rx_match False celex_bare ''Decision (EU) No 2024/1689'' = None
   \<and> rx_match True act_number ''Decision (EU) No 2024/1689'' =
      Some \<lparr>before = [], rest = [], group1 = Some ''2024/1689''\<rparr>
   \<and> extractCelexId (Some ''Decision (EU) No 2024/1689'') = Some ''2024/1689''
   \<and> rx_match True celex_prefixed ''ECB blog'' = None
   \<and> rx_match False celex_bare ''ECB blog'' = None
   \<and> rx_match True act_number ''ECB blog'' = None
   \<and> extractCelexId (Some ''ECB blog'') = None"
proof -
  have a1: "rx_match True celex_prefixed ''see 32019L0790, CELEX: 32024R1234'' =
      Some \<lparr>before = ''see 32019L0790, '', rest = [], group1 = Some ''32024R1234''\<rparr>"
    by code_simp
  have b1: "rx_match True celex_prefixed ''32024R1234(01)'' = None" by code_simp
  have b2: "rx_match False celex_bare ''32024R1234(01)'' =
      Some \<lparr>before = [], rest = [], group1 = Some ''32024R1234(01)''\<rparr>"
    by code_simp
  have c1: "rx_match True celex_prefixed ''Decision (EU) No 2024/1689'' = None" by code_simp
  have c2: "rx_match False celex_bare ''Decision (EU) No 2024/1689'' = None" by code_simp
  have c3: "rx_match True act_number ''Decision (EU) No 2024/1689'' =
      Some \<lparr>before = [], rest = [], group1 = Some ''2024/1689''\<rparr>"
    by code_simp
  have d1: "rx_match True celex_prefixed ''ECB blog'' = None" by code_simp
  have d2: "rx_match False celex_bare ''ECB blog'' = None" by code_simp
  have d3: "rx_match True act_number ''ECB blog'' = None" by code_simp
  note p = extractCelexId_priority
  from p a1 have a: "extractCelexId (Some ''see 32019L0790, CELEX: 32024R1234'') = Some ''32024R1234''"
    by simp
  from p b1 b2 have b: "extractCelexId (Some ''32024R1234(01)'') = Some ''32024R1234(01)''"
    by simp
  from p c1 c2 c3 have c: "extractCelexId (Some ''Decision (EU) No 2024/1689'') = Some ''2024/1689''"
    by simp
  from p d1 d2 d3 have d: "extractCelexId (Some ''ECB blog'') = None"
    by blast
  from a1 a b1 b2 b c1 c2 c3 c d1 d2 d3 d show ?thesis by blast
qed

text \<open>
  C8: \<open>extractLegalReferences\<close> applied to the empty string returns the empty set, and
  for every text that contains an acronym of the dictionary as a literal substring the
  result includes the expansion of that acronym.
\<close>

theorem extractLegalReferences_acronyms:
  "extractLegalReferences [] = [] \<and>
   (\<forall>t acronym fullName.
      (acronym, fullName) \<in> set acronyms \<and> str_includes t acronym
      \<longrightarrow> fullName \<in> set (extractLegalReferences t))"
proof (intro conjI allI impI)
  show "extractLegalReferences [] = []" by (simp add: extractLegalReferences_def)
next
  fix t acronym fullName
  assume a: "(acronym, fullName) \<in> set acronyms \<and> str_includes t acronym"
  then have "acronym \<noteq> []" by (auto simp: acronyms_def)
  with a have "t \<noteq> []" by (cases t) auto
  moreover from a add_acronyms_hit[of "(acronym, fullName)" t]
  have "fullName \<in> set (add_acronyms t (pattern_references t))" by simp
  ultimately show "fullName \<in> set (extractLegalReferences t)"
    by (simp add: extractLegalReferences_def)
qed

theorem extractLegalReferences_acronyms_witness:
  "(''DORA'', ''Regulation (EU) 2022/2554'') \<in> set acronyms
   \<and> str_includes ''Banks prepare for DORA'' ''DORA''
   \<and> ''Regulation (EU) 2022/2554'' \<in> set (extractLegalReferences ''Banks prepare for DORA'')"
proof -
  have a: "(''DORA'', ''Regulation (EU) 2022/2554'') \<in> set acronyms"
    by (simp add: acronyms_def)
  have b: "str_includes ''Banks prepare for DORA'' ''DORA''" by code_simp
  from extractLegalReferences_acronyms a b
  have "''Regulation (EU) 2022/2554'' \<in> set (extractLegalReferences ''Banks prepare for DORA'')"
    by blast
  with a b show ?thesis by blast
qed

text \<open>
  C10: inside \<open>findRelatedDocuments\<close> the texts given to \<open>extractLegalReferences\<close> are the
  lower-cased title and summary, and the acronyms are matched case-sensitively. So the
  reference lists of the scorer never hold the expansion of an acronym: they are what
  the regulation and directive number patterns alone produce, each member being
  \<open>Regulation\<close> or \<open>Directive\<close> followed by a number of digits and slashes.
\<close>

theorem scorer_references_without_acronyms:
  "extractLegalReferences (doc_text d) = pattern_references (doc_text d)
   \<and> (\<forall>e\<in>snd ` set acronyms. e \<notin> set (extractLegalReferences (doc_text d)))
   \<and> (\<forall>x\<in>set (extractLegalReferences (doc_text d)).
         numbered ''Regulation '' x \<or> numbered ''Directive '' x)"
proof -
  have ne: "or_empty (title d) @ '' '' @ or_empty (summary d) \<noteq> []" by simp
  have eq: "extractLegalReferences (doc_text d) = pattern_references (doc_text d)"
  proof -
    have "doc_text d \<noteq> []" using ne by (simp add: doc_text_def toLowerCase_def)
    then show ?thesis
      unfolding doc_text_def by (simp add: extractLegalReferences_def add_acronyms_lower)
  qed
  have num: "\<forall>x\<in>set (pattern_references (doc_text d)).
      numbered ''Regulation '' x \<or> numbered ''Directive '' x"
    using pattern_references_numbered by blast
  have "\<forall>e\<in>snd ` set acronyms. e \<notin> set (pattern_references (doc_text d))"
    using expansion_not_numbered pattern_references_numbered by blast
  with eq num show ?thesis by simp
qed

theorem scorer_references_without_acronyms_witness:
  "extractLegalReferences ''GDPR fines under Regulation (EU) 2016/679 '' =
      [''Regulation 2016/679'', ''Regulation (EU) 2016/679'']
   \<and> ''Regulation (EU) 2016/679'' \<in> snd ` set acronyms
   \<and> extractLegalReferences
        (doc_text \<lparr>item_id = None, title = Some ''GDPR fines under Regulation (EU) 2016/679'',
           url = None, summary = None, added = None, date = None, categories = None,
           tags = None\<rparr>) = [''Regulation 2016/679'']
   \<and> ''Regulation (EU) 2016/679'' \<notin> set (extractLegalReferences
        (doc_text \<lparr>item_id = None, title = Some ''GDPR fines under Regulation (EU) 2016/679'',
           url = None, summary = None, added = None, date = None, categories = None,
           tags = None\<rparr>))
   \<and> numbered ''Regulation '' ''Regulation 2016/679''"
proof -
  let ?d = "\<lparr>item_id = None, title = Some ''GDPR fines under Regulation (EU) 2016/679'',
           url = None, summary = None, added = None, date = None, categories = None,
           tags = None\<rparr>"
  have a: "extractLegalReferences ''GDPR fines under Regulation (EU) 2016/679 '' =
      [''Regulation 2016/679'', ''Regulation (EU) 2016/679'']" by code_simp
  have b: "''Regulation (EU) 2016/679'' \<in> snd ` set acronyms"
    by (simp add: acronyms_def)
  have c: "extractLegalReferences (doc_text ?d) = [''Regulation 2016/679'']" by code_simp
  note w = scorer_references_without_acronyms[of ?d]
  from w b have e: "''Regulation (EU) 2016/679'' \<notin> set (extractLegalReferences (doc_text ?d))"
    by blast
  from w c have "numbered ''Regulation '' ''Regulation 2016/679''
      \<or> numbered ''Directive '' ''Regulation 2016/679''" by simp
  moreover have "\<not> numbered ''Directive '' ''Regulation 2016/679''"
    by (simp add: numbered_def)
  ultimately have f: "numbered ''Regulation '' ''Regulation 2016/679''" by blast
  from a b c e f show ?thesis by blast
qed


section \<open>Ranking of related documents\<close>

text \<open>
  C2 as stated fails for a negative \<open>maxResults\<close>: \<open>slice(0, -1)\<close> drops the last entry
  only, so two retained candidates give one result, more than \<open>-1\<close>.
\<close>

theorem findRelatedDocuments_negative_limit:
  "findRelatedDocuments clock0 (Some doc_mica) (Some [doc_esma, doc_mica, doc_eba]) (Some (- 1))
     = [\<lparr>item = doc_esma, score = 15, relationship = Related\<rparr>]
   \<and> \<not> int (length (findRelatedDocuments clock0 (Some doc_mica)
              (Some [doc_esma, doc_mica, doc_eba]) (Some (- 1)))) \<le> - 1"
  by code_simp

text \<open>
  C2, amended: for every target, corpus and non-negative \<open>maxResults\<close>, \<open>findRelatedDocuments\<close>
  returns at most \<open>maxResults\<close> entries, sorted by falling score, each with a score above
  10, and entries of equal score keep the order in which their candidates stand in the
  corpus.
\<close>

theorem findRelatedDocuments_ranking:
  assumes "0 \<le> max_results mr"
  shows "int (length (findRelatedDocuments c t items mr)) \<le> max_results mr
    \<and> sorted_wrt (\<lambda>a b. score b \<le> score a) (findRelatedDocuments c t items mr)
    \<and> (\<forall>m\<in>set (findRelatedDocuments c t items mr). 10 < score m)
    \<and> (\<forall>k. \<exists>ys. filter (\<lambda>m. score m = k) (scored_candidates c tgt xs) =
            filter (\<lambda>m. score m = k) (findRelatedDocuments c (Some tgt) (Some xs) mr) @ ys)
    \<and> map item (scored_candidates c tgt xs) =
        filter (\<lambda>d. \<not> is_target tgt d \<and> 10 < fst (score_candidate c tgt d)) xs"
proof -
  let ?n = "max_results mr"
  let ?S = "\<lambda>t xs. take (nat ?n) (sort_key (\<lambda>m. - score m) (scored_candidates c t xs))"
  have shape: "findRelatedDocuments c t items mr = [] \<or>
     (\<exists>t' xs'. findRelatedDocuments c t items mr = ?S t' xs')"
    using assms by (auto simp: findRelatedDocuments_def slice0_nonneg split: option.splits)
  have len: "int (length (?S t' xs')) \<le> ?n" for t' xs' using assms by simp
  have srt: "sorted_wrt (\<lambda>a b. score b \<le> score a) (?S t' xs')" for t' xs'
    by (rule sorted_wrt_take') (rule sorted_falling)
  have gt: "\<forall>m\<in>set (?S t' xs'). 10 < score m" for t' xs'
  proof
    fix m assume "m \<in> set (?S t' xs')"
    then have "m \<in> set (sort_key (\<lambda>m. - score m) (scored_candidates c t' xs'))"
      by (rule in_set_takeD)
    then show "10 < score m" by (simp add: scored_candidates_score)
  qed
  have stable: "\<exists>ys. filter (\<lambda>m. score m = k) (scored_candidates c tgt xs) =
            filter (\<lambda>m. score m = k) (findRelatedDocuments c (Some tgt) (Some xs) mr) @ ys" for k
  proof (cases "xs = []")
    case True
    then show ?thesis by (simp add: findRelatedDocuments_def scored_candidates_def)
  next
    case False
    have "filter (\<lambda>m. - score m = - k) (sort_key (\<lambda>m. - score m) (scored_candidates c tgt xs))
        = filter (\<lambda>m. - score m = - k) (scored_candidates c tgt xs)"
      by (rule sort_key_stable)
    then have e: "filter (\<lambda>m. score m = k) (sort_key (\<lambda>m. - score m) (scored_candidates c tgt xs))
        = filter (\<lambda>m. score m = k) (scored_candidates c tgt xs)" by simp
    from filter_take_prefix[of "\<lambda>m. score m = k"
        "sort_key (\<lambda>m. - score m) (scored_candidates c tgt xs)" "nat ?n"]
    obtain ys where "filter (\<lambda>m. score m = k) (sort_key (\<lambda>m. - score m) (scored_candidates c tgt xs))
        = filter (\<lambda>m. score m = k) (?S tgt xs) @ ys" by blast
    with e have "filter (\<lambda>m. score m = k) (scored_candidates c tgt xs)
        = filter (\<lambda>m. score m = k) (?S tgt xs) @ ys" by simp
    moreover from False assms have "findRelatedDocuments c (Some tgt) (Some xs) mr = ?S tgt xs"
      by (simp add: findRelatedDocuments_def slice0_nonneg)
    ultimately show ?thesis by metis
  qed
  from shape len srt gt assms have first3: "int (length (findRelatedDocuments c t items mr)) \<le> max_results mr
    \<and> sorted_wrt (\<lambda>a b. score b \<le> score a) (findRelatedDocuments c t items mr)
    \<and> (\<forall>m\<in>set (findRelatedDocuments c t items mr). 10 < score m)"
    by (elim disjE exE) simp_all
  with stable scored_candidates_items show ?thesis by blast
qed

theorem findRelatedDocuments_ranking_witness:
  "0 \<le> max_results (Some 1)
   \<and> findRelatedDocuments clock0 (Some doc_mica) (Some [doc_esma, doc_mica, doc_eba]) (Some 1)
       = [\<lparr>item = doc_esma, score = 15, relationship = Related\<rparr>]
   \<and> scored_candidates clock0 doc_mica [doc_esma, doc_mica, doc_eba]
       = [\<lparr>item = doc_esma, score = 15, relationship = Related\<rparr>,
          \<lparr>item = doc_eba, score = 15, relationship = Related\<rparr>]
   \<and> int (length (findRelatedDocuments clock0 (Some doc_mica)
            (Some [doc_esma, doc_mica, doc_eba]) (Some 1))) \<le> max_results (Some 1)
   \<and> sorted_wrt (\<lambda>a b. score b \<le> score a) (findRelatedDocuments clock0 (Some doc_mica)
            (Some [doc_esma, doc_mica, doc_eba]) (Some 1))"
proof -
  have h: "0 \<le> max_results (Some 1)" by (simp add: max_results_def)
  have a: "findRelatedDocuments clock0 (Some doc_mica) (Some [doc_esma, doc_mica, doc_eba]) (Some 1)
       = [\<lparr>item = doc_esma, score = 15, relationship = Related\<rparr>]" by code_simp
  have b: "scored_candidates clock0 doc_mica [doc_esma, doc_mica, doc_eba]
       = [\<lparr>item = doc_esma, score = 15, relationship = Related\<rparr>,
          \<lparr>item = doc_eba, score = 15, relationship = Related\<rparr>]" by code_simp
  from findRelatedDocuments_ranking[OF h, of clock0 "Some doc_mica"
      "Some [doc_esma, doc_mica, doc_eba]"] h a b
  show ?thesis by blast
qed

text \<open>
  C5 as stated fails: identity is not decided by the URL alone when it is present, and
  no key is derived from the title. The loop skips a candidate when its \<open>id\<close> is equal
  to the target's, or its \<open>url\<close> is. The candidate below has a URL and a title of its
  own and the id of the target: it is skipped, although its score would be 15.
\<close>

theorem findRelatedDocuments_skips_same_id:
  "url doc_mica = Some ''https://e/a'' \<and> url doc_twin = Some ''https://e/z''
   \<and> title doc_twin \<noteq> title doc_mica \<and> item_id doc_twin = item_id doc_mica
   \<and> fst (score_candidate clock0 doc_mica doc_twin) = 15
   \<and> findRelatedDocuments clock0 (Some doc_mica) (Some [doc_twin]) None = []"
  by code_simp

text \<open>
  C5, amended: for a target that has an id and a URL, \<open>findRelatedDocuments\<close> scores every
  corpus element other than the target itself, where a candidate is the target when
  its id is equal to the target's or its URL is equal to the target's; no key is
  derived from the title.
\<close>

theorem findRelatedDocuments_identity:
  assumes "item_id t \<noteq> None" and "url t \<noteq> None" and "d \<in> set xs"
  shows "(d \<in> item ` set (scored_candidates c t xs))
     = (item_id d \<noteq> item_id t \<and> url d \<noteq> url t \<and> 10 < fst (score_candidate c t d))"
proof -
  have "item ` set (scored_candidates c t xs) = set (map item (scored_candidates c t xs))"
    by simp
  then have "item ` set (scored_candidates c t xs) =
      {d \<in> set xs. \<not> is_target t d \<and> 10 < fst (score_candidate c t d)}"
    by (simp only: scored_candidates_items set_filter)
  with assms(3) show ?thesis by (auto simp: is_target_def)
qed

theorem findRelatedDocuments_identity_witness:
  "item_id doc_mica \<noteq> None \<and> url doc_mica \<noteq> None
   \<and> doc_esma \<in> set [doc_esma, doc_mica, doc_eba]
   \<and> item_id doc_esma \<noteq> item_id doc_mica \<and> url doc_esma \<noteq> url doc_mica
   \<and> 10 < fst (score_candidate clock0 doc_mica doc_esma)
   \<and> doc_esma \<in> item ` set (scored_candidates clock0 doc_mica [doc_esma, doc_mica, doc_eba])
   \<and> doc_mica \<in> set [doc_esma, doc_mica, doc_eba]
   \<and> doc_mica \<notin> item ` set (scored_candidates clock0 doc_mica [doc_esma, doc_mica, doc_eba])"
proof -
  have a: "item_id doc_mica \<noteq> None" by code_simp
  have b: "url doc_mica \<noteq> None" by code_simp
  have c: "doc_esma \<in> set [doc_esma, doc_mica, doc_eba]" by simp
  have d: "item_id doc_esma \<noteq> item_id doc_mica \<and> url doc_esma \<noteq> url doc_mica" by code_simp
  have e: "10 < fst (score_candidate clock0 doc_mica doc_esma)" by code_simp
  have f: "doc_mica \<in> set [doc_esma, doc_mica, doc_eba]" by simp
  from findRelatedDocuments_identity[OF a b c, of clock0] d e
  have g: "doc_esma \<in> item ` set (scored_candidates clock0 doc_mica [doc_esma, doc_mica, doc_eba])"
    by blast
  from findRelatedDocuments_identity[OF a b f, of clock0]
  have h: "doc_mica \<notin> item ` set (scored_candidates clock0 doc_mica [doc_esma, doc_mica, doc_eba])"
    by blast
  from a b c d e f g h show ?thesis by blast
qed

text \<open>
  C6 as stated fails: when the candidate's title also matches an amendment pattern and
  one of its references occurs in the target's text, the relationship is overwritten
  with \<open>amendment\<close>. The two documents below share the prefix \<open>32014L006\<close>.
\<close>

theorem findRelatedDocuments_amendment_overrides:
  "doc_celex doc_mifid = Some ''32014L0065''
   \<and> doc_celex doc_mifid_amending = Some ''32014L0065(01)''
   \<and> same_base (doc_celex doc_mifid) (doc_celex doc_mifid_amending)
   \<and> findRelatedDocuments clock0 (Some doc_mifid) (Some [doc_mifid_amending]) None
       = [\<lparr>item = doc_mifid_amending, score = 154, relationship = Amendment\<rparr>]"
  by code_simp

text \<open>
  C6, amended: when the instrument ids of the target and of a corpus element, each
  taken from the title or else from the URL, share their first 9 characters, and the
  element is not skipped as the target, the element is retained with a score of at
  least 50; its tag is \<open>same-regulation\<close> unless the amendment bonus fires, in which case
  it is \<open>amendment\<close>; and it is returned when \<open>maxResults\<close> is at least the number of
  retained candidates.
\<close>

theorem findRelatedDocuments_same_instrument:
  assumes "same_base (doc_celex t) (doc_celex d)" and "\<not> is_target t d" and "d \<in> set xs"
  shows "\<exists>m\<in>set (scored_candidates c t xs).
           item m = d \<and> 50 \<le> score m
           \<and> relationship m =
               (if amends d (extractLegalReferences (doc_text d)) (doc_text t)
                then Amendment else SameRegulation)
           \<and> (int (length (scored_candidates c t xs)) \<le> max_results mr
                \<longrightarrow> m \<in> set (findRelatedDocuments c (Some t) (Some xs) mr))"
proof -
  let ?r = "score_candidate c t d"
  let ?rel = "if amends d (extractLegalReferences (doc_text d)) (doc_text t)
              then Amendment else SameRegulation"
  let ?m = "\<lparr>item = d, score = fst ?r, relationship = ?rel\<rparr>"
  from score_candidate_same[OF assms(1), of c]
  have s: "50 \<le> fst ?r" and r: "snd ?r = Some ?rel" by blast+
  from s r assms(2) have "candidate c t d = [?m]"
    by (simp add: candidate_def Let_def)
  with assms(3) have mem: "?m \<in> set (scored_candidates c t xs)"
    using candidate_in_scored[of d xs ?m c t] by simp
  have ret: "?m \<in> set (findRelatedDocuments c (Some t) (Some xs) mr)"
    if "int (length (scored_candidates c t xs)) \<le> max_results mr"
  proof -
    from assms(3) have "xs \<noteq> []" by auto
    moreover from that
    have "slice0 (sort_key (\<lambda>m. - score m) (scored_candidates c t xs)) (max_results mr)
        = sort_key (\<lambda>m. - score m) (scored_candidates c t xs)"
      by (intro slice0_all) simp
    ultimately have "findRelatedDocuments c (Some t) (Some xs) mr
        = sort_key (\<lambda>m. - score m) (scored_candidates c t xs)"
      by (simp add: findRelatedDocuments_def)
    with mem show ?thesis by simp
  qed
  from s mem ret show ?thesis by (intro bexI[of _ ?m]) simp_all
qed

theorem findRelatedDocuments_same_instrument_witness:
  "same_base (doc_celex doc_act) (doc_celex doc_act_corrected)
   \<and> \<not> is_target doc_act doc_act_corrected
   \<and> doc_act_corrected \<in> set [doc_act_corrected]
   \<and> \<not> amends doc_act_corrected (extractLegalReferences (doc_text doc_act_corrected))
         (doc_text doc_act)
   \<and> scored_candidates clock0 doc_act [doc_act_corrected]
       = [\<lparr>item = doc_act_corrected, score = 50, relationship = SameRegulation\<rparr>]
   \<and> (\<exists>m\<in>set (scored_candidates clock0 doc_act [doc_act_corrected]).
         item m = doc_act_corrected \<and> 50 \<le> score m \<and> relationship m = SameRegulation
         \<and> m \<in> set (findRelatedDocuments clock0 (Some doc_act) (Some [doc_act_corrected]) None))"
proof -
  have a: "same_base (doc_celex doc_act) (doc_celex doc_act_corrected)" by code_simp
  have b: "\<not> is_target doc_act doc_act_corrected" by code_simp
  have c: "doc_act_corrected \<in> set [doc_act_corrected]" by simp
  have d: "\<not> amends doc_act_corrected (extractLegalReferences (doc_text doc_act_corrected))
         (doc_text doc_act)" by code_simp
  have e: "scored_candidates clock0 doc_act [doc_act_corrected]
       = [\<lparr>item = doc_act_corrected, score = 50, relationship = SameRegulation\<rparr>]"
    by code_simp
  then have f: "int (length (scored_candidates clock0 doc_act [doc_act_corrected]))
       \<le> max_results None" by (simp add: max_results_def)
  from findRelatedDocuments_same_instrument[OF a b c, of clock0 None] d f
  have "\<exists>m\<in>set (scored_candidates clock0 doc_act [doc_act_corrected]).
         item m = doc_act_corrected \<and> 50 \<le> score m \<and> relationship m = SameRegulation
         \<and> m \<in> set (findRelatedDocuments clock0 (Some doc_act) (Some [doc_act_corrected]) None)"
    by simp
  with a b c d e show ?thesis by blast
qed


section \<open>Sections of the main content\<close>

text \<open>
  C4 as stated fails: the extractor collects all headings, then all paragraphs, then
  all list items, then all tables. A paragraph that stands before a heading in the
  document comes after it in the sections, and in the text that is returned.
\<close>

theorem extractSections_not_in_document_order:
  "sections_in_document_order (Element ''article'' []
       [Element ''p'' [] [Text long_paragraph], Element ''h2'' [] [Text ''Scope'']])
     = [Paragraph long_paragraph, Heading 2 ''Scope'']
   \<and> extractSections (Element ''article'' []
       [Element ''p'' [] [Text long_paragraph], Element ''h2'' [] [Text ''Scope'']])
     = [Heading 2 ''Scope'', Paragraph long_paragraph]
   \<and> extractMainContent
        \<lparr>parseFromString = (\<lambda>html. Element ''html'' []
            [Element ''head'' [] [],
             Element ''body'' [] [Element ''article'' []
               [Element ''p'' [] [Text long_paragraph], Element ''h2'' [] [Text ''Scope'']]]]),
         innerHTML = (\<lambda>el. [])\<rparr> []
     = ''## Scope'' @ nl @ nl @ long_paragraph"
  by code_simp

text \<open>
  C4, amended: for every HTML input whose structured text has at least 200 characters,
  so that it is not replaced by the tag-stripped fallback, the text that the extractor
  returns is the rendering of the classified sections grouped by kind: all headings,
  then all paragraphs, then all list items, then all tables, and within each kind in
  the order in which their elements stand in the parsed document.
\<close>

theorem extractMainContent_grouped_by_kind:
  assumes "mainElement (parseFromString b html) = Some m"
    and "200 \<le> length (trim (concat (map render (extractSections m))))"
  shows "extractMainContent b html =
     trim (concat (map render
       (filter is_heading (sections_in_document_order m)
        @ filter is_paragraph (sections_in_document_order m)
        @ filter is_list_item (sections_in_document_order m)
        @ filter is_table (sections_in_document_order m))))"
proof -
  from assms have "extractMainContent b html = trim (concat (map render (extractSections m)))"
    by (simp add: extractMainContent_def Let_def)
  then show ?thesis by (simp only: extractSections_grouped[of m])
qed

theorem extractMainContent_grouped_by_kind_witness:
  "mainElement (parseFromString article_browser []) =
      Some (Element ''article'' []
        [Element ''h1'' [] [Text ''Scope''], Element ''p'' [] [Text long_paragraph]])
   \<and> 200 \<le> length (trim (concat (map render (extractSections (Element ''article'' []
        [Element ''h1'' [] [Text ''Scope''], Element ''p'' [] [Text long_paragraph]])))))
   \<and> extractMainContent article_browser [] = ''# Scope'' @ nl @ nl @ long_paragraph"
proof -
  let ?m = "Element ''article'' []
        [Element ''h1'' [] [Text ''Scope''], Element ''p'' [] [Text long_paragraph]]"
  have a: "mainElement (parseFromString article_browser []) = Some ?m" by code_simp
  have b: "200 \<le> length (trim (concat (map render (extractSections ?m))))" by code_simp
  have c: "trim (concat (map render
       (filter is_heading (sections_in_document_order ?m)
        @ filter is_paragraph (sections_in_document_order ?m)
        @ filter is_list_item (sections_in_document_order ?m)
        @ filter is_table (sections_in_document_order ?m))))
     = ''# Scope'' @ nl @ nl @ long_paragraph" by code_simp
  from extractMainContent_grouped_by_kind[OF a b] c
  have "extractMainContent article_browser [] = ''# Scope'' @ nl @ nl @ long_paragraph"
    by simp
  with a b show ?thesis by blast
qed

text \<open>
  C9 as stated fails: the tests are \<open>text.length > 20\<close> and \<open>text.length > 10\<close>, so a
  paragraph of exactly 20 characters and a list item of exactly 10 characters are
  discarded.
\<close>

theorem extractSections_discards_twenty_and_ten:
  "length (trim (textContent (Element ''p'' [] [Text ''Exactly twenty chars'']))) = 20
   \<and> extractSections (Element ''div'' [] [Element ''p'' [] [Text ''Exactly twenty chars'']]) = []
   \<and> length (trim (textContent (Element ''li'' [] [Text ''Ten chars.'']))) = 10
   \<and> extractSections (Element ''ul'' [] [Element ''li'' [] [Text ''Ten chars.'']]) = []"
  by code_simp

text \<open>
  C9, amended: a paragraph is kept if and only if its trimmed text is longer than 20
  characters, and a list item if and only if its trimmed text is longer than 10
  characters.
\<close>

theorem extractSections_length_thresholds:
  "(e \<in> set (querySelectorAll [''p''] m) \<longrightarrow>
      (Paragraph (trim (textContent e)) \<in> set (extractSections m))
        = (20 < length (trim (textContent e))))
   \<and> (e \<in> set (querySelectorAll [''li''] m) \<longrightarrow>
      (ListItem (trim (textContent e)) \<in> set (extractSections m))
        = (10 < length (trim (textContent e))))"
  using paragraph_mem[of "trim (textContent e)" m] list_item_mem[of "trim (textContent e)" m]
  by blast

theorem extractSections_length_thresholds_witness:
  "Element ''p'' [] [Text ''Twenty-one characters'']
      \<in> set (querySelectorAll [''p''] (Element ''div'' []
            [Element ''p'' [] [Text ''Twenty-one characters'']]))
   \<and> 20 < length (trim (textContent (Element ''p'' [] [Text ''Twenty-one characters''])))
   \<and> Paragraph ''Twenty-one characters''
      \<in> set (extractSections (Element ''div'' [] [Element ''p'' [] [Text ''Twenty-one characters'']]))
   \<and> Element ''li'' [] [Text ''Eleven char'']
      \<in> set (querySelectorAll [''li''] (Element ''ul'' [] [Element ''li'' [] [Text ''Eleven char'']]))
   \<and> 10 < length (trim (textContent (Element ''li'' [] [Text ''Eleven char''])))
   \<and> ListItem ''Eleven char''
      \<in> set (extractSections (Element ''ul'' [] [Element ''li'' [] [Text ''Eleven char'']]))"
proof -
  let ?p = "Element ''p'' [] [Text ''Twenty-one characters'']"
  let ?li = "Element ''li'' [] [Text ''Eleven char'']"
  have a: "?p \<in> set (querySelectorAll [''p''] (Element ''div'' [] [?p]))" by code_simp
  have b: "trim (textContent ?p) = ''Twenty-one characters''" by code_simp
  have c: "?li \<in> set (querySelectorAll [''li''] (Element ''ul'' [] [?li]))" by code_simp
  have d: "trim (textContent ?li) = ''Eleven char''" by code_simp
  from extractSections_length_thresholds[of ?p "Element ''div'' [] [?p]"] a b
  have e: "Paragraph ''Twenty-one characters'' \<in> set (extractSections (Element ''div'' [] [?p]))"
    by simp
  from extractSections_length_thresholds[of ?li "Element ''ul'' [] [?li]"] c d
  have f: "ListItem ''Eleven char'' \<in> set (extractSections (Element ''ul'' [] [?li]))"
    by simp
  from a b c d e f show ?thesis by simp
qed


section \<open>Truncation and failures of the content fetcher\<close>

text \<open>
  C1: for every successful call the content has at most \<open>maxLength\<close> characters, and
  \<open>truncated\<close> is true if and only if \<open>originalLength\<close> exceeds the length of the returned
  content, on the backend channel and on the direct channel. The three return sites of
  the direct channel keep this (\<open>direct_channel_truncation\<close>). The backend branch does
  not: it passes \<open>originalLength\<close> on as the backend reports it and computes \<open>truncated\<close>
  from the content it received. For a backend that cut a text of 100 characters down
  to 6, the result has \<open>truncated = false\<close> with \<open>originalLength = 100\<close> over a content of
  length 6; the same happens with the default \<open>maxLength\<close>.
\<close>

theorem fetchDocumentContent_backend_original_length:
  "fetchDocumentContent
      (backend_answers (JObj [(''success'', JBool True), (''content'', JStr ''abcdef''),
                              (''type'', JStr ''html''), (''originalLength'', JNum 100)]))
      (Some ''https://e/a'') (Some 10)
     = Returns (Extracted (JStr ''abcdef'') (Some (JStr ''html'')) False (Some (JNum 100)) Backend)
   \<and> fetchDocumentContent
      (backend_answers (JObj [(''success'', JBool True), (''content'', JStr ''abcdef''),
                              (''type'', JStr ''html''), (''originalLength'', JNum 100)]))
      (Some ''https://e/a'') None
     = Returns (Extracted (JStr ''abcdef'') (Some (JStr ''html'')) False (Some (JNum 100)) Backend)
   \<and> int (js_length (JStr ''abcdef'')) < 100"
proof -
  let ?w = "backend_answers (JObj [(''success'', JBool True), (''content'', JStr ''abcdef''),
                              (''type'', JStr ''html''), (''originalLength'', JNum 100)])"
  have a: "fetchDocumentContent ?w (Some ''https://e/a'') (Some 10)
     = Returns (Extracted (JStr ''abcdef'') (Some (JStr ''html'')) False (Some (JNum 100)) Backend)"
    by code_simp
  have b: "fetchDocumentContent ?w (Some ''https://e/a'') None
     = Returns (Extracted (JStr ''abcdef'') (Some (JStr ''html'')) False (Some (JNum 100)) Backend)"
    by (simp add: fetchDocumentContent_def backend_answers_def fetchViaBackend_def get_field_def
        field_def truthy_def truthy_json_def js_slice_def js_length_def max_length_def
        slice0_all)
  have c: "int (js_length (JStr ''abcdef'')) < 100" by (simp add: js_length_def)
  from a b c show ?thesis by blast
qed

text \<open>
  C3: every public operation returns a result value for every input and never raises
  past its boundary; \<open>fetchDocumentContent\<close> returns a failure value for any shape of the
  backend's response. The code does not: the success branch for the backend reads
  \<open>backendResult.content.slice\<close> outside the \<open>try\<close> block, so a response
  \<open>{"success": true}\<close> without content makes the call throw a \<open>TypeError\<close>, and so does a
  response that is the JSON value \<open>null\<close>. \<open>buildRelatedDocumentsContext\<close> calls it without a
  \<open>try\<close> block, so one such related document makes the whole batch throw.
\<close>

theorem fetchDocumentContent_throws:
  "fetchDocumentContent (backend_answers (JObj [(''success'', JBool True)]))
      (Some ''https://e/a'') None = Throws TypeError
   \<and> fetchDocumentContent (backend_answers JNull) (Some ''https://e/a'') None = Throws TypeError
   \<and> buildRelatedDocumentsContext
        (\<lambda>u. if u = ''https://e/b'' then backend_answers (JObj [(''success'', JBool True)])
             else backend_down)
        (Some [\<lparr>item = doc_eba, score = 15, relationship = Related\<rparr>,
               \<lparr>item = doc_esma, score = 15, relationship = Related\<rparr>])
        (Some True) None = Throws TypeError"
  by code_simp

end
